theory Spec2Isabelle
  imports Complex_Main "HOL-Library.Sublist" "HOL-Library.Extended_Nat" "HOL-Library.Log_Nat"
begin

section \<open>JavaScript numbers and typed arrays\<close>

text \<open>
  A JavaScript number is a finite value, \<open>NaN\<close> or one of the two infinities. Finite
  values are modelled by the exact rational they denote (negative zero is not told apart
  from zero). The only arithmetic the modelled code performs on array elements is the
  product of a \<open>Float32Array\<close> element with 255, which is exact in double precision:
  a 24-bit significand times an 8-bit one fits the 53 bits of a double.
  Coordinates, sizes and indices are integers and are modelled as \<open>int\<close>.
\<close>

datatype number = Finite rat | NaN | PosInf | NegInf

fun times_number :: "number \<Rightarrow> number \<Rightarrow> number" where
  "times_number (Finite a) (Finite b) = Finite (a * b)"
| "times_number NaN _ = NaN"
| "times_number _ NaN = NaN"
| "times_number (Finite a) PosInf = (if a = 0 then NaN else if 0 < a then PosInf else NegInf)"
| "times_number (Finite a) NegInf = (if a = 0 then NaN else if 0 < a then NegInf else PosInf)"
| "times_number PosInf (Finite b) = (if b = 0 then NaN else if 0 < b then PosInf else NegInf)"
| "times_number NegInf (Finite b) = (if b = 0 then NaN else if 0 < b then NegInf else PosInf)"
| "times_number PosInf PosInf = PosInf"
| "times_number PosInf NegInf = NegInf"
| "times_number NegInf PosInf = NegInf"
| "times_number NegInf NegInf = PosInf"

text \<open>
  The element conversions of ECMAScript that a typed array applies to every value stored
  in it. \<open>truncate\<close> is the integral part of a number (0 for \<open>NaN\<close> and the
  infinities, as the modular conversions prescribe).
\<close>

fun truncate :: "number \<Rightarrow> int" where
  "truncate (Finite r) = (if 0 \<le> r then \<lfloor>r\<rfloor> else \<lceil>r\<rceil>)"
| "truncate _ = 0"

definition ToUintN :: "nat \<Rightarrow> number \<Rightarrow> number" where
  "ToUintN n v = Finite (of_int (truncate v mod 2 ^ n))"

definition ToIntN :: "nat \<Rightarrow> number \<Rightarrow> number" where
  "ToIntN n v =
     (let m = truncate v mod 2 ^ n
      in Finite (of_int (if 2 ^ (n - 1) \<le> m then m - 2 ^ n else m)))"

text \<open>Rounding to the nearest integer, ties to the even one.\<close>

definition round_half_even :: "rat \<Rightarrow> int" where
  "round_half_even r =
     (let f = \<lfloor>r\<rfloor>
      in if r < of_int f + 1 / 2 then f
         else if of_int f + 1 / 2 < r then f + 1
         else if even f then f else f + 1)"

text \<open>\<open>ToUint8Clamp\<close>: clamp to 0..255, then round to the nearest integer, ties to even.\<close>

fun ToUint8Clamp :: "number \<Rightarrow> int" where
  "ToUint8Clamp NaN = 0"
| "ToUint8Clamp PosInf = 255"
| "ToUint8Clamp NegInf = 0"
| "ToUint8Clamp (Finite r) = round_half_even (min (max r 0) 255)"

text \<open>
  Rounding a double to single precision (what a \<open>Float32Array\<close> stores): the nearest
  multiple of the spacing \<open>2 ^ (e - 23)\<close> of the binade \<open>e\<close> of the value (binades
  below \<open>-126\<close> share the subnormal spacing), ties to even, and an infinity from
  \<open>2 ^ 128\<close> on. \<open>ilog2 a\<close> is the binade of a positive rational: the integer
  \<open>e\<close> with \<open>2 ^ e \<le> a < 2 ^ (e + 1)\<close>.
\<close>

definition ilog2 :: "rat \<Rightarrow> int" where
  "ilog2 a =
     (let (p, q) = quotient_of a;
          d = int (floorlog 2 (nat p)) - int (floorlog 2 (nat q))
      in if 2 powi d \<le> a then d else d - 1)"

fun fround :: "number \<Rightarrow> number" where
  "fround (Finite r) =
     (if r = 0 then Finite 0
      else
        (let a = \<bar>r\<bar>;
             e = max (ilog2 a) (- 126);
             q = 2 powi (e - 23);
             m = of_int (round_half_even (a / q)) * q
         in if 2 powi 128 \<le> m then (if 0 < r then PosInf else NegInf)
            else Finite (if 0 < r then m else - m)))"
| "fround v = v"

text \<open>
  A typed array is its element conversion and its elements. The conversion is fixed by
  the array's class (the eight classes of \<open>BufferTypes\<close>).
\<close>

record typed_array =
  convert :: "number \<Rightarrow> number"
  elems :: "number list"

definition Float32Array :: "number list \<Rightarrow> typed_array" where
  "Float32Array xs = \<lparr> convert = fround, elems = map fround xs \<rparr>"

definition Uint8Array :: "number list \<Rightarrow> typed_array" where
  "Uint8Array xs = \<lparr> convert = ToUintN 8, elems = map (ToUintN 8) xs \<rparr>"

definition Uint16Array :: "number list \<Rightarrow> typed_array" where
  "Uint16Array xs = \<lparr> convert = ToUintN 16, elems = map (ToUintN 16) xs \<rparr>"

definition Uint32Array :: "number list \<Rightarrow> typed_array" where
  "Uint32Array xs = \<lparr> convert = ToUintN 32, elems = map (ToUintN 32) xs \<rparr>"

definition Int8Array :: "number list \<Rightarrow> typed_array" where
  "Int8Array xs = \<lparr> convert = ToIntN 8, elems = map (ToIntN 8) xs \<rparr>"

definition Int16Array :: "number list \<Rightarrow> typed_array" where
  "Int16Array xs = \<lparr> convert = ToIntN 16, elems = map (ToIntN 16) xs \<rparr>"

definition Int32Array :: "number list \<Rightarrow> typed_array" where
  "Int32Array xs = \<lparr> convert = ToIntN 32, elems = map (ToIntN 32) xs \<rparr>"

definition Uint8ClampedArray :: "number list \<Rightarrow> typed_array" where
  "Uint8ClampedArray xs =
     \<lparr> convert = (\<lambda>v. Finite (of_int (ToUint8Clamp v))),
       elems = map (\<lambda>v. Finite (of_int (ToUint8Clamp v))) xs \<rparr>"

text \<open>\<open>new Uint8ClampedArray(n)\<close>: \<open>n\<close> zeros.\<close>

definition new_Uint8ClampedArray :: "nat \<Rightarrow> typed_array" where
  "new_Uint8ClampedArray n = Uint8ClampedArray (replicate n (Finite 0))"

text \<open>
  \<open>a[i]\<close> reads \<open>undefined\<close> (here \<open>None\<close>) outside the array; \<open>a[i] = v\<close> converts
  \<open>v\<close> and stores it, and does nothing outside the array.
\<close>

definition array_get :: "typed_array \<Rightarrow> int \<Rightarrow> number option" where
  "array_get a i =
     (if 0 \<le> i \<and> i < int (length (elems a)) then Some (elems a ! nat i) else None)"

definition array_set :: "typed_array \<Rightarrow> int \<Rightarrow> number \<Rightarrow> typed_array" where
  "array_set a i v =
     (if 0 \<le> i \<and> i < int (length (elems a))
      then a\<lparr> elems := (elems a)[nat i := convert a v] \<rparr> else a)"

section \<open>Grid buffer (src/worker/buffer.ts)\<close>

text \<open>
  The two \<open>RangeError\<close>s of the module, with the values their messages interpolate:
  \<open>Buffer length (n) does not match size (m)\<close> and \<open>Index out of bounds: (x, y)\<close>.
\<close>

datatype range_error = LengthMismatch nat int | IndexOutOfBounds int int

text \<open>The field \<open>size\<close> of the source is \<open>buf_size\<close> here (\<open>size\<close> is a constant of HOL).\<close>

record buffer2D =
  buf_size :: "int \<times> int"
  buffer :: typed_array

definition wrapBuffer :: "typed_array \<Rightarrow> int \<times> int \<Rightarrow> range_error + buffer2D" where
  "wrapBuffer buf sz =
     (let len = fst sz * snd sz
      in if int (length (elems buf)) \<noteq> len
         then Inl (LengthMismatch (length (elems buf)) len)
         else Inr \<lparr> buf_size = sz, buffer = buf \<rparr>)"

definition isInBounds :: "buffer2D \<Rightarrow> int \<Rightarrow> int \<Rightarrow> bool" where
  "isInBounds b x y = (0 \<le> x \<and> x < fst (buf_size b) \<and> 0 \<le> y \<and> y < snd (buf_size b))"

definition getIndex :: "buffer2D \<Rightarrow> int \<Rightarrow> int \<Rightarrow> bool \<Rightarrow> range_error + int" where
  "getIndex b x y noCheck =
     (if \<not> noCheck \<and> \<not> isInBounds b x y then Inl (IndexOutOfBounds x y)
      else Inr (x + y * fst (buf_size b)))"

definition get :: "buffer2D \<Rightarrow> int \<Rightarrow> int \<Rightarrow> bool \<Rightarrow> range_error + number option" where
  "get b x y noCheck =
     (case getIndex b x y noCheck of
        Inl e \<Rightarrow> Inl e
      | Inr i \<Rightarrow> Inr (array_get (buffer b) i))"

text \<open>\<open>set\<close> writes through to the wrapped array; the model returns the updated buffer.\<close>

definition set_value :: "buffer2D \<Rightarrow> int \<Rightarrow> int \<Rightarrow> number \<Rightarrow> bool \<Rightarrow> range_error + buffer2D" where
  "set_value b x y v noCheck =
     (case getIndex b x y noCheck of
        Inl e \<Rightarrow> Inl e
      | Inr i \<Rightarrow> Inr (b\<lparr> buffer := array_set (buffer b) i v \<rparr>))"

section \<open>Heightmap encoding (src/capabilities/heightmap.ts)\<close>

text \<open>
  The \<open>ImageData(data, sw, sh)\<close> constructor of the platform, in the order of its
  steps: both dimensions are converted to unsigned 32-bit integers; a length that is not
  a non-zero multiple of four is an \<open>InvalidStateError\<close>; a number of pixels that is
  not a multiple of \<open>sw\<close> (as with \<open>sw = 0\<close>), or that divided by \<open>sw\<close> is not
  \<open>sh\<close>, is an \<open>IndexSizeError\<close>.
\<close>

datatype dom_exception = IndexSizeError | InvalidStateError

record image_data =
  data :: typed_array
  width :: int
  height :: int

definition ImageData :: "typed_array \<Rightarrow> int \<Rightarrow> int \<Rightarrow> dom_exception + image_data" where
  "ImageData d sw sh =
     (let w = sw mod 2 ^ 32; h = sh mod 2 ^ 32; len = int (length (elems d))
      in if len = 0 \<or> len mod 4 \<noteq> 0 then Inl InvalidStateError
         else if w = 0 \<or> (len div 4) mod w \<noteq> 0 then Inl IndexSizeError
         else if (len div 4) div w \<noteq> h then Inl IndexSizeError
         else Inr \<lparr> data = d, width = w, height = h \<rparr>)"

text \<open>
  \<open>buffer.buffer[i] * 255\<close>: reading the source buffer outside its length gives
  \<open>undefined\<close>, and \<open>undefined * 255\<close> is \<open>NaN\<close>.
\<close>

definition scaled :: "typed_array \<Rightarrow> nat \<Rightarrow> number" where
  "scaled src i =
     (case array_get src (int i) of
        None \<Rightarrow> NaN
      | Some e \<Rightarrow> times_number e (Finite 255))"

text \<open>The body of the loop of \<open>makeHeightmap\<close> at counter \<open>i\<close>.\<close>

definition heightmap_step :: "typed_array \<Rightarrow> nat \<Rightarrow> typed_array \<Rightarrow> typed_array" where
  "heightmap_step src i d =
     (let v = scaled src i;
          index = int i * 4;
          d1 = array_set d index v;
          d2 = array_set d1 (index + 1) v;
          d3 = array_set d2 (index + 2) v
      in array_set d3 (index + 3) (Finite 255))"

text \<open>
  \<open>makeHeightmap\<close>: the loop counter runs over the whole length of \<open>data\<close>, as in the
  source (\<open>i < data.length\<close>). A negative length raises in the array constructor;
  buffers made by \<open>wrapBuffer\<close> never have one.
\<close>

datatype heightmap_error = Range range_error | Dom dom_exception | InvalidArrayLength

definition makeHeightmap :: "buffer2D \<Rightarrow> heightmap_error + image_data" where
  "makeHeightmap b =
     (let n = fst (buf_size b) * snd (buf_size b) * 4
      in if n < 0 then Inl InvalidArrayLength
         else
           (let d = new_Uint8ClampedArray (nat n);
                d' = fold (heightmap_step (buffer b)) [0..<length (elems d)] d
            in case ImageData d' (fst (buf_size b)) (snd (buf_size b)) of
                 Inl e \<Rightarrow> Inl (Dom e)
               | Inr img \<Rightarrow> Inr img))"

text \<open>
  The body of the \<open>terrain/heightmap\<close> task registered in the worker: wrap the buffer
  of the configuration, encode it, return the image (which the task also marks for
  transfer).
\<close>

definition heightmap_task :: "typed_array \<Rightarrow> int \<times> int \<Rightarrow> heightmap_error + image_data" where
  "heightmap_task buf sz =
     (case wrapBuffer buf sz of
        Inl e \<Rightarrow> Inl (Range e)
      | Inr b \<Rightarrow> makeHeightmap b)"

section \<open>Task registry helpers (src/worker/helpers.ts)\<close>

text \<open>
  JavaScript strings are modelled as \<open>string\<close>; \<open>String.prototype.startsWith\<close> with
  the default position 0 is the prefix test.
\<close>

definition startsWith :: "string \<Rightarrow> string \<Rightarrow> bool" where
  "startsWith s searchString = prefix searchString s"

text \<open>
  The object returned by \<open>makeTypeHandler(type)\<close>. The closure variable \<open>tasks\<close> (a
  \<open>Map<string, Task>\<close>) is the field \<open>tasks\<close>; \<open>add\<close> returns the updated handler.
  The methods \<open>is\<close>, \<open>add\<close>, \<open>has\<close> and \<open>get\<close> are \<open>is_type\<close>, \<open>add_task\<close>,
  \<open>has_task\<close> and \<open>get_task\<close>.
  In the source the parameter of \<open>is\<close> is also called \<open>type\<close> and shadows the
  handler's own \<open>type\<close>, so the template literal in its body is built from the
  argument, not from the handler's category.
\<close>

record 'task type_handler =
  handler_type :: string
  tasks :: "string \<rightharpoonup> 'task"

definition makeTypeHandler :: "string \<Rightarrow> 'task type_handler" where
  "makeTypeHandler type = \<lparr> handler_type = type, tasks = Map.empty \<rparr>"

definition is_type :: "'task type_handler \<Rightarrow> string \<Rightarrow> bool" where
  "is_type h type = startsWith type (type @ ''/'')"

definition add_task :: "'task type_handler \<Rightarrow> string \<Rightarrow> 'task \<Rightarrow> 'task type_handler" where
  "add_task h type task = h\<lparr> tasks := (tasks h)(type \<mapsto> task) \<rparr>"

definition has_task :: "'task type_handler \<Rightarrow> string \<Rightarrow> bool" where
  "has_task h type = (type \<in> dom (tasks h))"

definition get_task :: "'task type_handler \<Rightarrow> string \<Rightarrow> 'task option" where
  "get_task h type = tasks h type"

section \<open>Thrown values\<close>

text \<open>
  What a \<open>throw\<close> can carry: an \<open>Error\<close> or a \<open>RangeError\<close> with its message, the
  \<open>AggregateError\<close> of src/pool/pool.ts with its \<open>errors\<close> and its message, or any
  value that is not an \<open>Error\<close> object.
\<close>

datatype thrown =
    Error string
  | RangeError string
  | AggregateError "thrown list" string
  | NonError string

text \<open>\<open>error instanceof Error ? error.message : "An unknown error occurred"\<close>\<close>

fun message_of :: "thrown \<Rightarrow> string" where
  "message_of (Error m) = m"
| "message_of (RangeError m) = m"
| "message_of (AggregateError es m) = m"
| "message_of (NonError v) = ''An unknown error occurred''"

section \<open>Unit protocol (the worker script: \<open>onMessage\<close>)\<close>

text \<open>\<open>type.split("/")\<close>: the segments between the slashes, at least one.\<close>

fun split_on :: "char \<Rightarrow> string \<Rightarrow> string list" where
  "split_on c [] = [[]]"
| "split_on c (x # xs) =
     (if x = c then [] # split_on c xs
      else (case split_on c xs of
              [] \<Rightarrow> [[x]]
            | s # ss \<Rightarrow> (x # s) # ss))"

text \<open>
  \<open>makeHandler\<close>: the registry is the map \<open>handlers\<close> from a category to its handler;
  \<open>getHandler(type)\<close> looks up the first segment of the type string.
\<close>

definition getHandler :: "(string \<rightharpoonup> 'task type_handler) \<Rightarrow> string \<Rightarrow> 'task type_handler option" where
  "getHandler handlers type =
     (case split_on CHR ''/'' type of [] \<Rightarrow> None | category # _ \<Rightarrow> handlers category)"

text \<open>\<open>const [, subType] = type.split("/")\<close>: the second segment, \<open>undefined\<close> without one.\<close>

definition subType :: "string \<Rightarrow> string option" where
  "subType type = (case split_on CHR ''/'' type of _ # s # _ \<Rightarrow> Some s | _ \<Rightarrow> None)"

text \<open>
  A request, and the messages a unit posts. \<open>'a\<close> is the type of the structured data
  that crosses the boundary (payloads, progress details, results). Durations are in
  milliseconds of the unit's clock; transferred buffers are named by numbers.
\<close>

datatype 'a incoming = Incoming (msg_type: string) (payload: 'a)

datatype 'a outgoing =
    Start
  | ProgressMsg 'a nat
  | ResultMsg 'a nat "nat list"
  | ErrorMsg string "nat option"

fun is_terminal :: "'a outgoing \<Rightarrow> bool" where
  "is_terminal (ResultMsg v d ts) = True"
| "is_terminal (ErrorMsg m d) = True"
| "is_terminal _ = False"

fun is_progress :: "'a outgoing \<Rightarrow> bool" where
  "is_progress (ProgressMsg v d) = True"
| "is_progress _ = False"

text \<open>
  A task body is a synchronous function of its context. What it does to the unit is the
  sequence of its calls, ended by a \<open>return\<close> or a \<open>throw\<close>: \<open>context.progress(detail)\<close>,
  \<open>context.transfer(buffer)\<close>, time passing while it computes, and the synchronous
  delivery of another message event to the unit (a call of the exported \<open>onMessage\<close>, or
  \<open>self.dispatchEvent\<close>), the only way a request reaches a unit that is in the middle of a
  task. A task body does not catch what its calls throw.
\<close>

datatype 'a script =
    Return 'a
  | Throw thrown
  | Progress 'a "'a script"
  | Transfer nat "'a script"
  | Elapse nat "'a script"
  | Deliver "'a incoming" "'a script"

type_synonym 'a task = "'a \<Rightarrow> 'a script"

text \<open>
  The module state of the worker script: \<open>busy\<close> (\<open>false\<close> is \<open>None\<close>), the counter
  captured by \<open>getID\<close>, the clock read by \<open>performance.now()\<close>, and the messages posted
  so far. The clock only moves forward, so the differences taken for durations lose
  nothing in \<open>nat\<close>.
\<close>

record 'a unit_state =
  busy :: "nat option"
  next_id :: nat
  now :: nat
  posted :: "'a outgoing list"

text \<open>\<open>if (busy)\<close>: \<open>false\<close> and the number 0 are falsy.\<close>

fun truthy :: "nat option \<Rightarrow> bool" where
  "truthy None = False"
| "truthy (Some n) = (n \<noteq> 0)"

definition MAX_SAFE_INTEGER :: nat where
  "MAX_SAFE_INTEGER = 2 ^ 53 - 1"

definition getID :: "'a unit_state \<Rightarrow> nat \<times> 'a unit_state" where
  "getID st =
     (let i = (if next_id st = MAX_SAFE_INTEGER then 0 else next_id st)
      in (i, st\<lparr> next_id := i + 1 \<rparr>))"

definition dispatch :: "'a outgoing \<Rightarrow> 'a unit_state \<Rightarrow> 'a unit_state" where
  "dispatch action st = st\<lparr> posted := posted st @ [action] \<rparr>"

text \<open>
  The \<open>catch\<close> and \<open>finally\<close> blocks of \<open>onMessage\<close>: post the error, clear \<open>busy\<close>.
\<close>

definition fail :: "string \<Rightarrow> nat option \<Rightarrow> 'a unit_state \<Rightarrow> 'a unit_state" where
  "fail message duration st = (dispatch (ErrorMsg message duration) st)\<lparr> busy := None \<rparr>"

text \<open>
  \<open>onMessage\<close>, and the run of a task body under the context built for the request
  \<open>id\<close> (\<open>start\<close> is the context's start time, \<open>ts\<close> its set of marked buffers in
  insertion order). The first argument bounds the depth of nested deliveries: \<open>None\<close>
  means that the call does not return within that depth. A result whose posting fails
  (a value that cannot be cloned) is outside the model.
\<close>

fun onMessage :: "nat \<Rightarrow> (string \<rightharpoonup> 'a task type_handler) \<Rightarrow> 'a incoming \<Rightarrow> 'a unit_state
    \<Rightarrow> 'a unit_state option"
  and run_task :: "nat \<Rightarrow> (string \<rightharpoonup> 'a task type_handler) \<Rightarrow> nat \<Rightarrow> nat \<Rightarrow> nat list
    \<Rightarrow> 'a script \<Rightarrow> 'a unit_state \<Rightarrow> ((thrown + 'a) \<times> nat list \<times> 'a unit_state) option"
where
  "onMessage 0 handlers event st = None"
| "onMessage (Suc depth) handlers event st =
     (if truthy (busy st) then Some (fail ''Worker is busy'' None st)
      else
        (let (i, st1) = getID st;
             st2 = st1\<lparr> busy := Some i \<rparr>;
             type = msg_type event
         in case getHandler handlers type of
              None \<Rightarrow> Some (fail (''Missing handler for type: '' @ type) None st2)
            | Some handler \<Rightarrow>
                (case Option.bind (subType type) (get_task handler) of
                   None \<Rightarrow> Some (fail (''Missing task for type: '' @ type) None st2)
                 | Some task \<Rightarrow>
                     (let st3 = dispatch Start st2;
                          start = now st3
                      in case run_task depth handlers i start [] (task (payload event)) st3 of
                           None \<Rightarrow> None
                         | Some (Inl e, ts, st4) \<Rightarrow>
                             Some (fail (message_of e) (Some (now st4 - start)) st4)
                         | Some (Inr result, ts, st4) \<Rightarrow>
                             Some ((dispatch (ResultMsg result (now st4 - start) ts) st4)
                                     \<lparr> busy := None \<rparr>)))))"
| "run_task depth handlers i start ts (Return v) st = Some (Inr v, ts, st)"
| "run_task depth handlers i start ts (Throw e) st = Some (Inl e, ts, st)"
| "run_task depth handlers i start ts (Progress detail k) st =
     (if busy st \<noteq> Some i then Some (Inl (Error ''Task is not active''), ts, st)
      else run_task depth handlers i start ts k
             (dispatch (ProgressMsg detail (if start \<noteq> 0 then now st - start else 0)) st))"
| "run_task depth handlers i start ts (Transfer b k) st =
     run_task depth handlers i start (if b \<in> set ts then ts else ts @ [b]) k st"
| "run_task depth handlers i start ts (Elapse ms k) st =
     run_task depth handlers i start ts k (st\<lparr> now := now st + ms \<rparr>)"
| "run_task depth handlers i start ts (Deliver event k) st =
     (case onMessage depth handlers event st of
        None \<Rightarrow> None
      | Some st' \<Rightarrow> run_task depth handlers i start ts k st')"

text \<open>
  The event loop of the worker: \<open>onMessage\<close> is the listener of the \<open>message\<close> event, and
  the message events posted to the worker are handled one after the other, each when the
  call for the one before has returned. A request posted while a task runs waits in
  this queue.
\<close>

fun event_loop :: "nat \<Rightarrow> (string \<rightharpoonup> 'a task type_handler) \<Rightarrow> 'a incoming list \<Rightarrow> 'a unit_state
    \<Rightarrow> 'a unit_state option" where
  "event_loop depth handlers [] st = Some st"
| "event_loop depth handlers (event # events) st =
     (case onMessage depth handlers event st of
        None \<Rightarrow> None
      | Some st' \<Rightarrow> event_loop depth handlers events st')"

text \<open>A task body that delivers no message, and what it ends with.\<close>

fun reentrant :: "'a script \<Rightarrow> bool" where
  "reentrant (Return v) = False"
| "reentrant (Throw e) = False"
| "reentrant (Progress d k) = reentrant k"
| "reentrant (Transfer b k) = reentrant k"
| "reentrant (Elapse ms k) = reentrant k"
| "reentrant (Deliver event k) = True"

fun ending :: "'a script \<Rightarrow> thrown + 'a" where
  "ending (Return v) = Inr v"
| "ending (Throw e) = Inl e"
| "ending (Progress d k) = ending k"
| "ending (Transfer b k) = ending k"
| "ending (Elapse ms k) = ending k"
| "ending (Deliver event k) = ending k"

text \<open>The state of a unit that has just been started: idle, no request served yet.\<close>

definition fresh_unit :: "'a unit_state" where
  "fresh_unit = \<lparr> busy = None, next_id = 0, now = 0, posted = [] \<rparr>"

section \<open>Worker pool (src/pool/pool.ts)\<close>

text \<open>
  Workers and \<open>Deferred\<close> objects are identified by numbers; a \<open>Deferred\<close> is numbered
  by its order of creation. The promise of a \<open>Deferred\<close> is settled at most once: later
  calls of \<open>resolve\<close> or \<open>reject\<close> do nothing.
\<close>

type_synonym worker = nat
type_synonym deferred = nat

datatype settlement = Fulfilled worker | Rejected thrown

text \<open>
  The private fields of \<open>WorkerPool\<close>, followed by the parts of the environment that its
  methods act on: the settled promises of the \<open>Deferred\<close> objects (\<open>None\<close>: not yet
  settled), the number of \<open>Deferred\<close> objects created, the callbacks queued by
  \<open>setTimeout(..., 0)\<close> (each resolves a \<open>Deferred\<close> with a worker), the workers on which
  \<open>terminate()\<close> was called, and the workers that carry the pool's \<open>error\<close> listener.
  \<open>maxPending\<close> is a non-negative integer or \<open>Infinity\<close>.
\<close>

record pool =
  workers :: "worker list"
  available :: "worker list"
  pending :: "deferred list"
  maxPending :: enat
  promises :: "deferred \<rightharpoonup> settlement"
  created :: nat
  timers :: "(deferred \<times> worker) list"
  terminated :: "worker list"
  listeners :: "worker set"

definition resolve :: "deferred \<Rightarrow> worker \<Rightarrow> pool \<Rightarrow> pool" where
  "resolve d w p =
     (case promises p d of
        None \<Rightarrow> p\<lparr> promises := (promises p)(d \<mapsto> Fulfilled w) \<rparr>
      | Some _ \<Rightarrow> p)"

definition reject :: "thrown \<Rightarrow> deferred \<Rightarrow> pool \<Rightarrow> pool" where
  "reject e d p =
     (case promises p d of
        None \<Rightarrow> p\<lparr> promises := (promises p)(d \<mapsto> Rejected e) \<rparr>
      | Some _ \<Rightarrow> p)"

text \<open>The fields of a pool whose constructor has just run: no worker is ready yet.\<close>

definition new_pool :: pool where
  "new_pool = \<lparr> workers = [], available = [], pending = [], maxPending = \<infinity>,
                promises = Map.empty, created = 0, timers = [], terminated = [],
                listeners = {} \<rparr>"

text \<open>The constructor's check of \<open>size\<close> (an integer here).\<close>

definition WorkerPool :: "int \<Rightarrow> thrown + pool" where
  "WorkerPool n = (if n \<le> 0 then Inl (RangeError ''Size must be a positive integer'') else Inr new_pool)"

definition set_maxPending :: "int \<Rightarrow> pool \<Rightarrow> (thrown + unit) \<times> pool" where
  "set_maxPending v p =
     (if v < 0 then (Inl (RangeError ''Max pending must be a non-negative integer''), p)
      else (Inr (), p\<lparr> maxPending := enat (nat v) \<rparr>))"

text \<open>
  \<open>acquire\<close> throws, or returns a promise that is already resolved with a worker
  (\<open>Ready\<close>), or the promise of a new \<open>Deferred\<close> (\<open>Awaiting\<close>).
\<close>

datatype acquired = Ready worker | Awaiting deferred

definition acquire :: "pool \<Rightarrow> (thrown + acquired) \<times> pool" where
  "acquire p =
     (if workers p = [] then (Inl (Error ''No workers in pool''), p)
      else
        (case available p of
           next # rest \<Rightarrow> (Inr (Ready next), p\<lparr> available := rest \<rparr>)
         | [] \<Rightarrow>
             if maxPending p \<le> enat (length (pending p))
             then (Inl (Error ''Max pending requests reached''), p)
             else (Inr (Awaiting (created p)),
                   p\<lparr> pending := pending p @ [created p], created := Suc (created p) \<rparr>)))"

definition release :: "worker \<Rightarrow> pool \<Rightarrow> (thrown + unit) \<times> pool" where
  "release w p =
     (if w \<notin> set (workers p) then (Inl (Error ''Worker is not in pool''), p)
      else
        (case pending p of
           d # rest \<Rightarrow> (Inr (), p\<lparr> pending := rest, timers := timers p @ [(d, w)] \<rparr>)
         | [] \<Rightarrow> (Inr (), p\<lparr> available := available p @ [w] \<rparr>)))"

text \<open>The next scheduling turn: the oldest queued timer callback runs.\<close>

definition run_timer :: "pool \<Rightarrow> pool" where
  "run_timer p =
     (case timers p of
        [] \<Rightarrow> p
      | (d, w) # rest \<Rightarrow> resolve d w (p\<lparr> timers := rest \<rparr>))"

definition close :: "pool \<Rightarrow> pool" where
  "close p =
     (if workers p = [] then p
      else
        (fold (reject (Error ''Worker pool closed'')) (pending p)
           (p\<lparr> terminated := terminated p @ workers p \<rparr>))
          \<lparr> workers := [], available := [], pending := [] \<rparr>)"

text \<open>
  \<open>#createWorker(busy)\<close> after \<open>waitForReady\<close> has settled: with a worker that reported
  ready, or with the error of a worker that failed first (the method then rejects and
  leaves the pool as it is).
\<close>

definition createWorker :: "bool \<Rightarrow> thrown + worker \<Rightarrow> pool \<Rightarrow> pool" where
  "createWorker is_busy ready p =
     (case ready of
        Inl e \<Rightarrow> p
      | Inr w \<Rightarrow>
          p\<lparr> workers := workers p @ [w],
             available := (if \<not> is_busy then available p @ [w] else available p),
             listeners := insert w (listeners p) \<rparr>)"

text \<open>
  An \<open>error\<close> event of a worker: the listener installed by \<open>#createWorker\<close> runs (once)
  and filters the worker out of both lists.
\<close>

definition worker_error :: "worker \<Rightarrow> pool \<Rightarrow> pool" where
  "worker_error w p =
     (if w \<in> listeners p
      then p\<lparr> workers := filter (\<lambda>x. x \<noteq> w) (workers p),
              available := filter (\<lambda>x. x \<noteq> w) (available p),
              listeners := listeners p - {w} \<rparr>
      else p)"

text \<open>
  \<open>with(task)\<close>. The method is asynchronous: between its call of \<open>acquire\<close> and the
  continuation after \<open>await\<close> other holders of the pool run (\<open>others\<close>), and the awaited
  \<open>task\<close> returns together with the pool as it is when the task has settled. If the
  awaited promise never settles the method never returns (\<open>None\<close>). The result carries
  the arguments of the calls of \<open>release\<close> that the method made.
\<close>

definition awaited :: "acquired \<Rightarrow> pool \<Rightarrow> settlement option" where
  "awaited a p = (case a of Ready w \<Rightarrow> Some (Fulfilled w) | Awaiting d \<Rightarrow> promises p d)"

definition pool_with :: "(worker \<Rightarrow> pool \<Rightarrow> (thrown + 'r) \<times> pool) \<Rightarrow> (pool \<Rightarrow> pool) \<Rightarrow> pool
    \<Rightarrow> ((thrown + 'r) \<times> worker list \<times> pool) option" where
  "pool_with task others p =
     (case acquire p of
        (Inl e, p1) \<Rightarrow> Some (Inl (AggregateError [e] ''Failed to acquire worker''), [], p1)
      | (Inr a, p1) \<Rightarrow>
          (let p2 = others p1
           in case awaited a p2 of
                None \<Rightarrow> None
              | Some (Rejected e) \<Rightarrow>
                  Some (Inl (AggregateError [e] ''Failed to acquire worker''), [], p2)
              | Some (Fulfilled worker) \<Rightarrow>
                  (let (r, p3) = task worker p2;
                       body = (case r of
                                 Inl e \<Rightarrow> Inl (AggregateError [e] ''Worker task failed'')
                               | Inr result \<Rightarrow> Inr result)
                   in case release worker p3 of
                        (Inl e, p4) \<Rightarrow>
                          Some (Inl (AggregateError [e] ''Failed to release worker''), [worker], p4)
                      | (Inr u, p4) \<Rightarrow> Some (body, [worker], p4))))"

text \<open>
  What can happen to a pool, one event at a time, and a run of events. The results of
  the calls are dropped: only the pool matters to what follows.
\<close>

datatype event =
    Create bool "thrown + worker"
  | Acquire
  | Release worker
  | ErrorEvent worker
  | Timeout
  | Close
  | SetMaxPending int

fun step :: "event \<Rightarrow> pool \<Rightarrow> pool" where
  "step (Create is_busy ready) p = createWorker is_busy ready p"
| "step Acquire p = snd (acquire p)"
| "step (Release w) p = snd (release w p)"
| "step (ErrorEvent w) p = worker_error w p"
| "step Timeout p = run_timer p"
| "step Close p = close p"
| "step (SetMaxPending v) p = snd (set_maxPending v p)"

definition run :: "event list \<Rightarrow> pool \<Rightarrow> pool" where
  "run evs p = fold step evs p"


section \<open>A registry and unit states used as examples\<close>

text \<open>
  Two categories. \<open>job/outer\<close> delivers a \<open>job/inner\<close> request to its own unit while
  it runs, then reports progress and returns; \<open>job/inner\<close> returns at once;
  \<open>job/slow\<close> computes for 100 ms and returns; \<open>test/crash\<close> computes for a while, reports progress and throws. \<open>served_once\<close> is
  an idle unit that has served one request (its next request gets the id 1).
\<close>

definition job_handler :: "nat task type_handler" where
  "job_handler =
     add_task
       (add_task
          (add_task (makeTypeHandler ''job'') ''outer''
             (\<lambda>config. Deliver (Incoming ''job/inner'' 0) (Progress 1 (Return 2))))
          ''inner'' (\<lambda>config. Return 3))
       ''slow'' (\<lambda>config. Elapse 100 (Return 4))"

definition crash_handler :: "nat task type_handler" where
  "crash_handler =
     add_task (makeTypeHandler ''test'') ''crash''
       (\<lambda>config. Elapse 5 (Progress 9 (Throw (Error ''boom''))))"

definition example_handlers :: "string \<rightharpoonup> nat task type_handler" where
  "example_handlers = [''job'' \<mapsto> job_handler, ''test'' \<mapsto> crash_handler]"

definition served_once :: "nat unit_state" where
  "served_once = \<lparr> busy = None, next_id = 1, now = 0, posted = [] \<rparr>"

section \<open>Invariants of the pool\<close>

text \<open>
  What every run of events keeps true of a pool, and what stays true of a worker once
  its error listener has run: it is in neither list, and of the timer callbacks that
  still carry it each belongs to a \<open>Deferred\<close> created before \<open>d0\<close>.
\<close>

definition well_formed :: "pool \<Rightarrow> bool" where
  "well_formed p \<longleftrightarrow>
     set (workers p) \<subseteq> listeners p
     \<and> set (available p) \<subseteq> set (workers p)
     \<and> (\<forall>d \<in> set (pending p). d < created p)
     \<and> (\<forall>(d, w) \<in> set (timers p). d < created p)
     \<and> (\<forall>d \<ge> created p. promises p d = None)"

definition evicted :: "worker \<Rightarrow> nat \<Rightarrow> pool \<Rightarrow> bool" where
  "evicted w d0 p \<longleftrightarrow>
     w \<notin> set (workers p)
     \<and> w \<notin> set (available p)
     \<and> d0 \<le> created p
     \<and> (\<forall>(d, w') \<in> set (timers p). w' = w \<longrightarrow> d < d0)
     \<and> (\<forall>d \<ge> d0. promises p d \<noteq> Some (Fulfilled w))"

section \<open>Pools used as examples\<close>

text \<open>
  A pool of one worker (numbered 7) that is idle, the same pool with the worker handed
  out, that pool with three callers waiting, and a pool whose only worker was handed
  out, then awaited by a second caller, and then reported an error.
\<close>

definition one_idle :: pool where
  "one_idle = createWorker False (Inr 7) new_pool"

definition one_busy :: pool where
  "one_busy = createWorker True (Inr 7) new_pool"

definition three_waiting :: pool where
  "three_waiting = run [Create True (Inr 7), Acquire, Acquire, Acquire] new_pool"

definition evicted_with_waiter :: pool where
  "evicted_with_waiter = run [Create False (Inr 7), Acquire, Acquire, ErrorEvent 7] new_pool"

section \<open>Properties\<close>

subsection \<open>Grid buffer\<close>

lemma index_in_range:
  fixes x y W H :: int
  assumes "0 \<le> x" "x < W" "0 \<le> y" "y < H"
  shows "0 \<le> x + y * W \<and> x + y * W < W * H"
proof -
  have W: "0 < W" using assms by simp
  have "y * W \<le> (H - 1) * W" using assms W by (intro mult_right_mono) auto
  then have "x + y * W < W + (H - 1) * W" using assms by linarith
  also have "\<dots> = W * H" by (simp add: algebra_simps)
  finally have "x + y * W < W * H" .
  moreover have "0 \<le> y * W" using assms W by simp
  ultimately show ?thesis using assms by simp
qed

lemma wrapBuffer_Inr:
  "wrapBuffer a sz = Inr b \<Longrightarrow> b = \<lparr> buf_size = sz, buffer = a \<rparr> \<and> int (length (elems a)) = fst sz * snd sz"
  by (auto simp: wrapBuffer_def Let_def split: if_splits)

lemma ToUintN_representable:
  assumes "0 \<le> k" and "k < 2 ^ n"
  shows "ToUintN n (Finite (of_int k)) = Finite (of_int k)"
  using assms by (simp add: ToUintN_def)

text \<open>
  Claim C8, as amended. \<open>wrapBuffer(buffer, [W, H])\<close> fails with a range error when
  \<open>buffer.length \<noteq> W * H\<close>. On a successfully constructed buffer, for every
  in-bounds \<open>(x, y)\<close>, \<open>getIndex(x, y) = x + y * W\<close>, and \<open>set(x, y, v)\<close> followed
  by \<open>get(x, y)\<close> returns \<open>v\<close> converted to the element type of the wrapped typed
  array (so the written value itself exactly when the element type represents it); for
  every \<open>(x, y)\<close> with \<open>x < 0\<close>, \<open>x \<ge> W\<close>, \<open>y < 0\<close> or \<open>y \<ge> H\<close>, the checked
  \<open>getIndex\<close>, \<open>get\<close> and \<open>set\<close> fail with the out-of-range error.
\<close>

theorem wrapBuffer_contract:
  "(int (length (elems a)) \<noteq> W * H \<longrightarrow>
      wrapBuffer a (W, H) = Inl (LengthMismatch (length (elems a)) (W * H)))
   \<and> (int (length (elems a)) = W * H \<longrightarrow>
      (\<exists>b. wrapBuffer a (W, H) = Inr b
        \<and> (0 \<le> x \<and> x < W \<and> 0 \<le> y \<and> y < H \<longrightarrow>
             getIndex b x y False = Inr (x + y * W)
           \<and> (\<exists>b'. set_value b x y v False = Inr b'
                 \<and> get b' x y False = Inr (Some (convert a v))))
        \<and> (x < 0 \<or> W \<le> x \<or> y < 0 \<or> H \<le> y \<longrightarrow>
             getIndex b x y False = Inl (IndexOutOfBounds x y)
           \<and> get b x y False = Inl (IndexOutOfBounds x y)
           \<and> set_value b x y v False = Inl (IndexOutOfBounds x y))))"
proof (intro conjI impI)
  assume "int (length (elems a)) \<noteq> W * H"
  then show "wrapBuffer a (W, H) = Inl (LengthMismatch (length (elems a)) (W * H))"
    by (simp add: wrapBuffer_def)
next
  assume len: "int (length (elems a)) = W * H"
  define b where "b = \<lparr> buf_size = (W, H), buffer = a \<rparr>"
  have wb: "wrapBuffer a (W, H) = Inr b"
    using len by (simp add: wrapBuffer_def b_def)
  have inb: "getIndex b x y False = Inr (x + y * W)
           \<and> (\<exists>b'. set_value b x y v False = Inr b'
                 \<and> get b' x y False = Inr (Some (convert a v)))"
    if "0 \<le> x \<and> x < W \<and> 0 \<le> y \<and> y < H"
  proof -
    from that have r: "0 \<le> x + y * W" "x + y * W < int (length (elems a))"
      using index_in_range [of x W y H] len by simp_all
    have gi: "getIndex b x y False = Inr (x + y * W)"
      using that by (simp add: getIndex_def isInBounds_def b_def)
    have gi': "getIndex (b\<lparr> buffer := array_set a (x + y * W) v \<rparr>) x y False = Inr (x + y * W)"
      using that by (simp add: getIndex_def isInBounds_def b_def)
    have sv: "set_value b x y v False = Inr (b\<lparr> buffer := array_set a (x + y * W) v \<rparr>)"
      using gi by (simp add: set_value_def b_def)
    have "get (b\<lparr> buffer := array_set a (x + y * W) v \<rparr>) x y False = Inr (Some (convert a v))"
      using gi' r by (simp add: get_def array_get_def array_set_def)
    with gi sv show ?thesis by simp
  qed
  have oob: "getIndex b x y False = Inl (IndexOutOfBounds x y)
           \<and> get b x y False = Inl (IndexOutOfBounds x y)
           \<and> set_value b x y v False = Inl (IndexOutOfBounds x y)"
    if "x < 0 \<or> W \<le> x \<or> y < 0 \<or> H \<le> y"
  proof -
    have "getIndex b x y False = Inl (IndexOutOfBounds x y)"
      using that by (auto simp: getIndex_def isInBounds_def b_def)
    then show ?thesis by (simp add: get_def set_value_def)
  qed
  from wb inb oob
  show "\<exists>b. wrapBuffer a (W, H) = Inr b
        \<and> (0 \<le> x \<and> x < W \<and> 0 \<le> y \<and> y < H \<longrightarrow>
             getIndex b x y False = Inr (x + y * W)
           \<and> (\<exists>b'. set_value b x y v False = Inr b'
                 \<and> get b' x y False = Inr (Some (convert a v))))
        \<and> (x < 0 \<or> W \<le> x \<or> y < 0 \<or> H \<le> y \<longrightarrow>
             getIndex b x y False = Inl (IndexOutOfBounds x y)
           \<and> get b x y False = Inl (IndexOutOfBounds x y)
           \<and> set_value b x y v False = Inl (IndexOutOfBounds x y))"
    by blast
qed


theorem wrapBuffer_contract_witness:
  "wrapBuffer (Uint8Array [Finite 0, Finite 0]) (3, 2)
     = Inl (LengthMismatch (length (elems (Uint8Array [Finite 0, Finite 0]))) (3 * 2))
   \<and> (\<exists>b. wrapBuffer (Uint8Array (replicate 6 (Finite 0))) (3, 2) = Inr b
        \<and> getIndex b 1 1 False = Inr (1 + 1 * 3)
        \<and> (\<exists>b'. set_value b 1 1 (Finite 7) False = Inr b'
              \<and> get b' 1 1 False = Inr (Some (Finite 7))))
   \<and> (\<exists>b. wrapBuffer (Uint8Array (replicate 6 (Finite 0))) (3, 2) = Inr b
        \<and> getIndex b 3 0 False = Inl (IndexOutOfBounds 3 0)
        \<and> get b 3 0 False = Inl (IndexOutOfBounds 3 0)
        \<and> set_value b 3 0 (Finite 7) False = Inl (IndexOutOfBounds 3 0))"
proof -
  have c: "convert (Uint8Array (replicate 6 (Finite 0))) (Finite 7) = Finite 7"
    by (simp add: Uint8Array_def ToUintN_def)
  have l2: "int (length (elems (Uint8Array [Finite 0, Finite 0]))) \<noteq> 3 * 2"
    and l6: "int (length (elems (Uint8Array (replicate 6 (Finite 0))))) = 3 * 2"
    by (simp_all add: Uint8Array_def)
  from wrapBuffer_contract [of "Uint8Array [Finite 0, Finite 0]" 3 2 0 0 "Finite 0"] l2
  have a: "wrapBuffer (Uint8Array [Finite 0, Finite 0]) (3, 2)
     = Inl (LengthMismatch (length (elems (Uint8Array [Finite 0, Finite 0]))) (3 * 2))"
    by blast
  from wrapBuffer_contract [of "Uint8Array (replicate 6 (Finite 0))" 3 2 1 1 "Finite 7"] l6 c
  have b: "\<exists>b. wrapBuffer (Uint8Array (replicate 6 (Finite 0))) (3, 2) = Inr b
        \<and> getIndex b 1 1 False = Inr (1 + 1 * 3)
        \<and> (\<exists>b'. set_value b 1 1 (Finite 7) False = Inr b'
              \<and> get b' 1 1 False = Inr (Some (Finite 7)))"
    by auto
  from wrapBuffer_contract [of "Uint8Array (replicate 6 (Finite 0))" 3 2 3 0 "Finite 7"] l6
  have c: "\<exists>b. wrapBuffer (Uint8Array (replicate 6 (Finite 0))) (3, 2) = Inr b
        \<and> getIndex b 3 0 False = Inl (IndexOutOfBounds 3 0)
        \<and> get b 3 0 False = Inl (IndexOutOfBounds 3 0)
        \<and> set_value b 3 0 (Finite 7) False = Inl (IndexOutOfBounds 3 0)"
    by auto
  from a b c show ?thesis by blast
qed

text \<open>
  The round trip of the claim as stated fails where the element type does not represent
  the written value: 256 written to the single cell of a 1 by 1 \<open>Uint8Array\<close> buffer
  reads back as 0.
\<close>

theorem roundtrip_counterexample:
  "wrapBuffer (Uint8Array [Finite 0]) (1, 1)
     = Inr \<lparr> buf_size = (1, 1), buffer = Uint8Array [Finite 0] \<rparr>
   \<and> isInBounds \<lparr> buf_size = (1, 1), buffer = Uint8Array [Finite 0] \<rparr> 0 0
   \<and> set_value \<lparr> buf_size = (1, 1), buffer = Uint8Array [Finite 0] \<rparr> 0 0 (Finite 256) False
     = Inr \<lparr> buf_size = (1, 1), buffer = Uint8Array [Finite 0] \<rparr>
   \<and> get \<lparr> buf_size = (1, 1), buffer = Uint8Array [Finite 0] \<rparr> 0 0 False
     = Inr (Some (Finite 0))
   \<and> Finite 0 \<noteq> Finite 256"
  by (simp add: wrapBuffer_def Uint8Array_def set_value_def getIndex_def isInBounds_def
      array_set_def array_get_def get_def ToUintN_def)

subsection \<open>Heightmap encoding\<close>

lemma array_set_convert [simp]: "convert (array_set a i v) = convert a"
  by (simp add: array_set_def)

lemma array_set_length [simp]: "length (elems (array_set a i v)) = length (elems a)"
  by (simp add: array_set_def)

lemma array_set_nth:
  "j < length (elems a) \<Longrightarrow>
   elems (array_set a i v) ! j = (if i = int j then convert a v else elems a ! j)"
  by (auto simp: array_set_def nth_list_update)

lemma heightmap_step_convert [simp]: "convert (heightmap_step src i d) = convert d"
  by (simp add: heightmap_step_def Let_def)

lemma heightmap_step_length [simp]: "length (elems (heightmap_step src i d)) = length (elems d)"
  by (simp add: heightmap_step_def Let_def)

lemma heightmap_step_nth:
  assumes "j < length (elems d)"
  shows "elems (heightmap_step src i d) ! j =
     (if j div 4 = i
      then (if j mod 4 = 3 then convert d (Finite 255) else convert d (scaled src i))
      else elems d ! j)"
proof -
  have eqs: "(int i * 4 = int j) = (j = 4 * i)" "(int i * 4 + 1 = int j) = (j = 4 * i + 1)"
    "(int i * 4 + 2 = int j) = (j = 4 * i + 2)" "(int i * 4 + 3 = int j) = (j = 4 * i + 3)"
    by linarith+
  have "j div 4 = i \<longleftrightarrow> j = 4 * i \<or> j = 4 * i + 1 \<or> j = 4 * i + 2 \<or> j = 4 * i + 3"
    by presburger
  moreover have "j = 4 * i + 3 \<Longrightarrow> j mod 4 = 3" "j = 4 * i \<Longrightarrow> j mod 4 \<noteq> 3"
    "j = 4 * i + 1 \<Longrightarrow> j mod 4 \<noteq> 3" "j = 4 * i + 2 \<Longrightarrow> j mod 4 \<noteq> 3"
    by presburger+
  ultimately show ?thesis
    using assms
    by (auto simp: heightmap_step_def Let_def array_set_nth eqs)
qed

lemma heightmap_fold_convert [simp]:
  "convert (fold (heightmap_step src) [0..<k] d) = convert d"
  by (induction k) simp_all

lemma heightmap_fold_length [simp]:
  "length (elems (fold (heightmap_step src) [0..<k] d)) = length (elems d)"
  by (induction k) simp_all

lemma heightmap_fold_nth:
  "j < length (elems d) \<Longrightarrow>
   elems (fold (heightmap_step src) [0..<k] d) ! j =
     (if j div 4 < k
      then (if j mod 4 = 3 then convert d (Finite 255) else convert d (scaled src (j div 4)))
      else elems d ! j)"
proof (induction k)
  case 0
  then show ?case by simp
next
  case (Suc k)
  then show ?case
    by (auto simp: heightmap_step_nth less_Suc_eq)
qed

declare fround.simps [simp del]

lemma fround_zero: "fround (Finite 0) = Finite 0"
  by (simp add: fround.simps)

lemma round_half_even_255: "round_half_even 255 = 255"
  by (simp add: round_half_even_def)

lemma fround_one: "fround (Finite 1) = Finite 1"
  by code_simp

lemma fround_half: "fround (Finite (1 / 2)) = Finite (1 / 2)"
  by code_simp

text \<open>
  Claim C2, as amended. For every flat numeric grid of width \<open>W\<close> and height \<open>H\<close>
  (both at least 1 and below \<open>2 ^ 32\<close>), the \<open>terrain/heightmap\<close> task returns a
  \<open>W\<close> by \<open>H\<close> image of four channels per cell in which, for every cell value
  \<open>v\<close>, each of R, G and B is \<open>v * 255\<close> clamped to 0..255 and rounded to the nearest
  integer, ties to even (0 for \<open>NaN\<close>), and A is 255. In particular a 1 by 1 grid with
  value 1.0 gives the pixel 255, 255, 255, 255 and value 0.0 gives 0, 0, 0, 255 (the
  two instances proved after the theorem).
\<close>

theorem heightmap_task_pixels:
  assumes len: "int (length (elems buf)) = W * H"
    and W: "0 < W" "W < 2 ^ 32" and H: "0 < H" "H < 2 ^ 32"
  shows "\<exists>img. heightmap_task buf (W, H) = Inr img
           \<and> width img = W \<and> height img = H
           \<and> length (elems (data img)) = 4 * length (elems buf)
           \<and> (\<forall>i < length (elems buf).
                 elems (data img) ! (4 * i) =
                   Finite (of_int (ToUint8Clamp (times_number (elems buf ! i) (Finite 255))))
               \<and> elems (data img) ! (4 * i + 1) = elems (data img) ! (4 * i)
               \<and> elems (data img) ! (4 * i + 2) = elems (data img) ! (4 * i)
               \<and> elems (data img) ! (4 * i + 3) = Finite 255)"
proof -
  define n where "n = length (elems buf)"
  define d0 where "d0 = new_Uint8ClampedArray (4 * n)"
  define d where "d = fold (heightmap_step buf) [0..<length (elems d0)] d0"
  have d0_len: "length (elems d0) = 4 * n"
    by (simp add: d0_def new_Uint8ClampedArray_def Uint8ClampedArray_def)
  have d0_conv: "convert d0 = (\<lambda>v. Finite (of_int (ToUint8Clamp v)))"
    by (simp add: d0_def new_Uint8ClampedArray_def Uint8ClampedArray_def)
  have d_len: "length (elems d) = 4 * n"
    by (simp add: d_def d0_len)
  have WH: "0 < W * H" using W H by simp
  have n_pos: "0 < n" using len WH by (auto simp: n_def)
  have nat_eq: "nat (W * H * 4) = 4 * n"
    using len by (simp add: n_def nat_mult_distrib flip: len)
  have mk: "makeHeightmap \<lparr> buf_size = (W, H), buffer = buf \<rparr>
              = (case ImageData d W H of Inl e \<Rightarrow> Inl (Dom e) | Inr img \<Rightarrow> Inr img)"
  proof -
    have "\<not> W * H * 4 < 0" using WH by linarith
    then show ?thesis
      unfolding makeHeightmap_def Let_def d_def d0_def
      by (simp only: buffer2D.simps fst_conv snd_conv nat_eq if_False)
  qed
  have "int n = W * H" using len by (simp add: n_def)
  then have img: "ImageData d W H = Inr \<lparr> data = d, width = W, height = H \<rparr>"
    using W H n_pos by (simp add: ImageData_def Let_def d_len)
  have task: "heightmap_task buf (W, H) = Inr \<lparr> data = d, width = W, height = H \<rparr>"
    using len by (simp add: heightmap_task_def wrapBuffer_def mk img)
  have px: "elems d ! j =
      (if j mod 4 = 3 then Finite 255
       else Finite (of_int (ToUint8Clamp (scaled buf (j div 4)))))" if "j < 4 * n" for j
  proof -
    have "j div 4 < 4 * n" using that by simp
    then show ?thesis
      using that heightmap_fold_nth [of j d0 buf "length (elems d0)"]
      by (simp add: d_def d0_len d0_conv round_half_even_255)
  qed
  have sc: "scaled buf i = times_number (elems buf ! i) (Finite 255)" if "i < n" for i
    using that by (simp add: scaled_def array_get_def n_def)
  have cells: "elems d ! (4 * i) =
                   Finite (of_int (ToUint8Clamp (times_number (elems buf ! i) (Finite 255))))
               \<and> elems d ! (4 * i + 1) = elems d ! (4 * i)
               \<and> elems d ! (4 * i + 2) = elems d ! (4 * i)
               \<and> elems d ! (4 * i + 3) = Finite 255" if "i < n" for i
  proof -
    have "4 * i < 4 * n" "4 * i + 1 < 4 * n" "4 * i + 2 < 4 * n" "4 * i + 3 < 4 * n"
      using that by simp_all
    moreover have "(4 * i) div 4 = i" "(4 * i + 1) div 4 = i" "(4 * i + 2) div 4 = i"
      "(4 * i) mod 4 \<noteq> 3" "(4 * i + 1) mod 4 \<noteq> 3" "(4 * i + 2) mod 4 \<noteq> 3"
      "(4 * i + 3) mod 4 = 3"
      by presburger+
    ultimately show ?thesis using sc [OF that] by (simp add: px)
  qed
  show ?thesis
    using task d_len cells by (simp add: n_def)
qed

text \<open>
  The claim as stated (the floor of the clamped product) fails at the cell value 0.5:
  the product 127.5 is stored as 128, its floor is 127. An empty grid gives no image at
  all: the image constructor rejects empty pixel data.
\<close>

theorem heightmap_floor_counterexample:
  "(case heightmap_task (Float32Array [Finite (1 / 2)]) (1, 1) of
      Inl e \<Rightarrow> [] | Inr img \<Rightarrow> elems (data img))
     = [Finite 128, Finite 128, Finite 128, Finite 255]
   \<and> \<lfloor>min (max (1 / 2 * 255 :: rat) 0) 255\<rfloor> = 127
   \<and> heightmap_task (Float32Array []) (0, 0) = Inl (Dom InvalidStateError)"
proof -
  have fl: "\<lfloor>(255 / 2 :: rat)\<rfloor> = 127" by (simp add: floor_eq_iff)
  have "fold (heightmap_step (Float32Array [Finite (1 / 2)])) [0..<4] (new_Uint8ClampedArray 4)
        = \<lparr> convert = (\<lambda>v. Finite (of_int (ToUint8Clamp v))),
            elems = [Finite 128, Finite 128, Finite 128, Finite 255] \<rparr>"
    by (simp add: upt_rec [of _ "numeral _"] upt_rec [of _ "Suc _"] heightmap_step_def scaled_def array_get_def array_set_def
        Float32Array_def fround_half new_Uint8ClampedArray_def Uint8ClampedArray_def
        round_half_even_def fl numeral_eq_Suc)
  then have "heightmap_task (Float32Array [Finite (1 / 2)]) (1, 1)
      = Inr \<lparr> data = \<lparr> convert = (\<lambda>v. Finite (of_int (ToUint8Clamp v))),
            elems = [Finite 128, Finite 128, Finite 128, Finite 255] \<rparr>, width = 1, height = 1 \<rparr>"
    by (simp add: heightmap_task_def wrapBuffer_def Float32Array_def makeHeightmap_def
        new_Uint8ClampedArray_def Uint8ClampedArray_def ImageData_def fround_half)
  moreover have "heightmap_task (Float32Array []) (0, 0) = Inl (Dom InvalidStateError)"
    by (simp add: heightmap_task_def wrapBuffer_def Float32Array_def makeHeightmap_def
        new_Uint8ClampedArray_def Uint8ClampedArray_def ImageData_def)
  ultimately show ?thesis by (simp add: fl)
qed

lemma pixel_list:
  fixes xs :: "number list"
  assumes "length xs = 4 * 1"
    and "xs ! (4 * 0) = r" "xs ! (4 * 0 + 1) = xs ! (4 * 0)"
    and "xs ! (4 * 0 + 2) = xs ! (4 * 0)" "xs ! (4 * 0 + 3) = a"
  shows "xs = [r, r, r, a]"
  using assms by (auto simp: list_eq_iff_nth_eq less_Suc_eq numeral_eq_Suc)

theorem heightmap_task_pixels_witness:
  "(\<exists>img. heightmap_task (Float32Array [Finite 1]) (1, 1) = Inr img
      \<and> width img = 1 \<and> height img = 1
      \<and> elems (data img) = [Finite 255, Finite 255, Finite 255, Finite 255])
   \<and> (\<exists>img. heightmap_task (Float32Array [Finite 0]) (1, 1) = Inr img
      \<and> width img = 1 \<and> height img = 1
      \<and> elems (data img) = [Finite 0, Finite 0, Finite 0, Finite 255])"
proof -
  have c1: "ToUint8Clamp (times_number (Finite 1) (Finite 255)) = 255"
    and c0: "ToUint8Clamp (times_number (Finite 0) (Finite 255)) = 0"
    by (simp_all add: round_half_even_def)
  have e1: "elems (Float32Array [Finite 1]) = [Finite 1]"
    and e0: "elems (Float32Array [Finite 0]) = [Finite 0]"
    by (simp_all add: Float32Array_def fround_one fround_zero)
  have one: "\<exists>img. heightmap_task (Float32Array [Finite 1]) (1, 1) = Inr img
      \<and> width img = 1 \<and> height img = 1
      \<and> elems (data img) = [Finite 255, Finite 255, Finite 255, Finite 255]"
  proof -
    from heightmap_task_pixels [of "Float32Array [Finite 1]" 1 1]
    obtain img where t: "heightmap_task (Float32Array [Finite 1]) (1, 1) = Inr img"
      "width img = 1" "height img = 1" "length (elems (data img)) = 4 * 1"
      and px: "\<forall>i<1. elems (data img) ! (4 * i) =
                   Finite (of_int (ToUint8Clamp (times_number ([Finite 1] ! i) (Finite 255))))
               \<and> elems (data img) ! (4 * i + 1) = elems (data img) ! (4 * i)
               \<and> elems (data img) ! (4 * i + 2) = elems (data img) ! (4 * i)
               \<and> elems (data img) ! (4 * i + 3) = Finite 255"
      unfolding e1 by auto
    from px have "elems (data img) ! (4 * 0) = Finite 255"
      "elems (data img) ! (4 * 0 + 1) = elems (data img) ! (4 * 0)"
      "elems (data img) ! (4 * 0 + 2) = elems (data img) ! (4 * 0)"
      "elems (data img) ! (4 * 0 + 3) = Finite 255"
      using c1 by simp_all
    from pixel_list [OF t(4) this] t show ?thesis by blast
  qed
  have zero: "\<exists>img. heightmap_task (Float32Array [Finite 0]) (1, 1) = Inr img
      \<and> width img = 1 \<and> height img = 1
      \<and> elems (data img) = [Finite 0, Finite 0, Finite 0, Finite 255]"
  proof -
    from heightmap_task_pixels [of "Float32Array [Finite 0]" 1 1]
    obtain img where t: "heightmap_task (Float32Array [Finite 0]) (1, 1) = Inr img"
      "width img = 1" "height img = 1" "length (elems (data img)) = 4 * 1"
      and px: "\<forall>i<1. elems (data img) ! (4 * i) =
                   Finite (of_int (ToUint8Clamp (times_number ([Finite 0] ! i) (Finite 255))))
               \<and> elems (data img) ! (4 * i + 1) = elems (data img) ! (4 * i)
               \<and> elems (data img) ! (4 * i + 2) = elems (data img) ! (4 * i)
               \<and> elems (data img) ! (4 * i + 3) = Finite 255"
      unfolding e0 by auto
    from px have "elems (data img) ! (4 * 0) = Finite 0"
      "elems (data img) ! (4 * 0 + 1) = elems (data img) ! (4 * 0)"
      "elems (data img) ! (4 * 0 + 2) = elems (data img) ! (4 * 0)"
      "elems (data img) ! (4 * 0 + 3) = Finite 255"
      using c0 by simp_all
    from pixel_list [OF t(4) this] t show ?thesis by blast
  qed
  from one zero show ?thesis by simp
qed


subsection \<open>Worker pool: acquire and release\<close>

lemma one_idle_eq:
  "one_idle = \<lparr> workers = [7], available = [7], pending = [], maxPending = \<infinity>,
                promises = Map.empty, created = 0, timers = [], terminated = [],
                listeners = {7} \<rparr>"
  by (simp add: one_idle_def createWorker_def new_pool_def)

lemma one_busy_eq:
  "one_busy = \<lparr> workers = [7], available = [], pending = [], maxPending = \<infinity>,
                promises = Map.empty, created = 0, timers = [], terminated = [],
                listeners = {7} \<rparr>"
  by (simp add: one_busy_def createWorker_def new_pool_def)

lemma tw: "three_waiting = \<lparr> workers = [7], available = [], pending = [0, 1, 2], maxPending = \<infinity>,
                promises = Map.empty, created = 3, timers = [], terminated = [],
                listeners = {7} \<rparr>"
  by (simp add: three_waiting_def run_def new_pool_def createWorker_def acquire_def numeral_eq_Suc)

text \<open>
  Claim C5. \<open>acquire()\<close> fails immediately when the pool has zero units. Otherwise,
  when an idle unit exists it removes the first one from the idle list and returns it;
  when no unit is idle and the number of pending requests is at or above \<open>maxPending\<close>
  it fails with the capacity error and leaves the pool, so also the pending queue, as it
  was; otherwise it appends exactly one new pending future (the next \<open>Deferred\<close>
  created) at the tail of the pending queue and hands out its promise.
\<close>

theorem acquire_contract:
  "(workers p = [] \<longrightarrow> acquire p = (Inl (Error ''No workers in pool''), p))
   \<and> (workers p \<noteq> [] \<and> available p = w # ws \<longrightarrow>
        acquire p = (Inr (Ready w), p\<lparr> available := ws \<rparr>))
   \<and> (workers p \<noteq> [] \<and> available p = [] \<and> maxPending p \<le> enat (length (pending p)) \<longrightarrow>
        acquire p = (Inl (Error ''Max pending requests reached''), p)
        \<and> pending (snd (acquire p)) = pending p)
   \<and> (workers p \<noteq> [] \<and> available p = [] \<and> enat (length (pending p)) < maxPending p \<longrightarrow>
        fst (acquire p) = Inr (Awaiting (created p))
        \<and> pending (snd (acquire p)) = pending p @ [created p]
        \<and> created (snd (acquire p)) = Suc (created p)
        \<and> promises (snd (acquire p)) = promises p
        \<and> available (snd (acquire p)) = []
        \<and> workers (snd (acquire p)) = workers p)"
  by (auto simp: acquire_def)

theorem acquire_contract_witness:
  "acquire new_pool = (Inl (Error ''No workers in pool''), new_pool)
   \<and> acquire (createWorker False (Inr 7) new_pool)
       = (Inr (Ready 7), (createWorker False (Inr 7) new_pool)\<lparr> available := [] \<rparr>)
   \<and> acquire ((createWorker True (Inr 7) new_pool)\<lparr> maxPending := 0 \<rparr>)
       = (Inl (Error ''Max pending requests reached''),
          (createWorker True (Inr 7) new_pool)\<lparr> maxPending := 0 \<rparr>)
   \<and> fst (acquire (createWorker True (Inr 7) new_pool)) = Inr (Awaiting 0)
   \<and> pending (snd (acquire (createWorker True (Inr 7) new_pool))) = [0]"
proof -
  have a: "acquire new_pool = (Inl (Error ''No workers in pool''), new_pool)"
    using acquire_contract [of new_pool 0 "[]"] by (simp add: new_pool_def)
  have b: "acquire (createWorker False (Inr 7) new_pool)
       = (Inr (Ready 7), (createWorker False (Inr 7) new_pool)\<lparr> available := [] \<rparr>)"
    using acquire_contract [of "createWorker False (Inr 7) new_pool" 7 "[]"]
    by (simp add: new_pool_def createWorker_def)
  have c: "acquire ((createWorker True (Inr 7) new_pool)\<lparr> maxPending := 0 \<rparr>)
       = (Inl (Error ''Max pending requests reached''),
          (createWorker True (Inr 7) new_pool)\<lparr> maxPending := 0 \<rparr>)"
    using acquire_contract [of "(createWorker True (Inr 7) new_pool)\<lparr> maxPending := 0 \<rparr>" 0 "[]"]
    by (simp add: new_pool_def createWorker_def zero_enat_def)
  have d: "fst (acquire (createWorker True (Inr 7) new_pool)) = Inr (Awaiting 0)
   \<and> pending (snd (acquire (createWorker True (Inr 7) new_pool))) = [0]"
    using acquire_contract [of "createWorker True (Inr 7) new_pool" 0 "[]"]
    by (simp add: new_pool_def createWorker_def)
  from a b c d show ?thesis by simp
qed

text \<open>
  Claim C6. \<open>release(unit)\<close> fails when the unit is not a member of the pool. When the
  pending queue is non-empty it takes the oldest pending future off the queue and
  queues a timer callback that fulfils it with the released unit: \<open>release\<close> itself
  settles no promise and does not touch the idle list, and the next scheduling turn
  fulfils the future with the unit. When the pending queue is empty it appends the unit
  to the idle list.
\<close>

theorem release_contract:
  "(w \<notin> set (workers p) \<longrightarrow> release w p = (Inl (Error ''Worker is not in pool''), p))
   \<and> (w \<in> set (workers p) \<and> pending p = d # ds \<longrightarrow>
        fst (release w p) = Inr ()
        \<and> pending (snd (release w p)) = ds
        \<and> available (snd (release w p)) = available p
        \<and> promises (snd (release w p)) = promises p
        \<and> timers (snd (release w p)) = timers p @ [(d, w)]
        \<and> (timers p = [] \<and> promises p d = None \<longrightarrow>
             promises (run_timer (snd (release w p))) d = Some (Fulfilled w)
             \<and> timers (run_timer (snd (release w p))) = []))
   \<and> (w \<in> set (workers p) \<and> pending p = [] \<longrightarrow>
        release w p = (Inr (), p\<lparr> available := available p @ [w] \<rparr>))"
  by (auto simp: release_def run_timer_def resolve_def)

theorem release_contract_witness:
  "release 8 three_waiting = (Inl (Error ''Worker is not in pool''), three_waiting)
   \<and> pending three_waiting = [0, 1, 2]
   \<and> pending (snd (release 7 three_waiting)) = [1, 2]
   \<and> available (snd (release 7 three_waiting)) = []
   \<and> promises (snd (release 7 three_waiting)) 0 = None
   \<and> promises (run_timer (snd (release 7 three_waiting))) 0 = Some (Fulfilled 7)
   \<and> release 7 (createWorker True (Inr 7) new_pool)
        = (Inr (), (createWorker True (Inr 7) new_pool)\<lparr> available := [7] \<rparr>)"
proof -
  have a: "release 8 three_waiting = (Inl (Error ''Worker is not in pool''), three_waiting)"
    using release_contract [of 8 three_waiting 0 "[]"] by (simp add: tw)
  have b: "pending (snd (release 7 three_waiting)) = [1, 2]
   \<and> available (snd (release 7 three_waiting)) = []
   \<and> promises (snd (release 7 three_waiting)) 0 = None
   \<and> promises (run_timer (snd (release 7 three_waiting))) 0 = Some (Fulfilled 7)"
    using release_contract [of 7 three_waiting 0 "[1, 2]"] by (simp add: tw)
  have c: "release 7 (createWorker True (Inr 7) new_pool)
        = (Inr (), (createWorker True (Inr 7) new_pool)\<lparr> available := [7] \<rparr>)"
    using release_contract [of 7 "createWorker True (Inr 7) new_pool" 0 "[]"]
    by (simp add: new_pool_def createWorker_def)
  from a b c show ?thesis by (simp add: tw)
qed

subsection \<open>Worker pool: close\<close>

text \<open>On a pool that has units, \<open>close\<close> does what its name says, and it is idempotent.\<close>

lemma promises_fold_reject:
  "promises (fold (reject e) ds q) d =
     (if d \<in> set ds \<and> promises q d = None then Some (Rejected e) else promises q d)"
  by (induction ds arbitrary: q) (auto simp: reject_def split: option.splits)

lemma fold_reject_fields:
  "workers (fold (reject e) ds q) = workers q"
  "available (fold (reject e) ds q) = available q"
  "pending (fold (reject e) ds q) = pending q"
  "terminated (fold (reject e) ds q) = terminated q"
  "timers (fold (reject e) ds q) = timers q"
  "created (fold (reject e) ds q) = created q"
  "listeners (fold (reject e) ds q) = listeners q"
  "maxPending (fold (reject e) ds q) = maxPending q"
  by (induction ds arbitrary: q; simp add: reject_def split: option.splits)+

lemma close_populated:
  assumes "workers p \<noteq> []"
  shows "workers (close p) = [] \<and> available (close p) = [] \<and> pending (close p) = []
    \<and> terminated (close p) = terminated p @ workers p
    \<and> (\<forall>d \<in> set (pending p). promises p d = None \<longrightarrow>
          promises (close p) d = Some (Rejected (Error ''Worker pool closed'')))"
  using assms by (simp add: close_def promises_fold_reject fold_reject_fields)

lemma close_idempotent: "close (close p) = close p"
  by (simp add: close_def)

text \<open>
  Claim C3 says that in every pool state \<open>close()\<close> terminates every unit, rejects every
  still-pending acquisition future with the "pool closed" failure and empties the unit
  list, the idle list and the pending queue, and that closing a closed or never
  populated pool is a no-op. The code decides that there is nothing to do from the unit
  list alone. In the pool whose only unit was evicted after a second caller had begun
  to wait, the unit list is empty and one future is pending; \<open>close()\<close> returns at once:
  the future stays in the pending queue and is never rejected.
\<close>

theorem close_skips_pending_without_workers:
  "workers evicted_with_waiter = []
   \<and> pending evicted_with_waiter = [0]
   \<and> promises evicted_with_waiter 0 = None
   \<and> close evicted_with_waiter = evicted_with_waiter
   \<and> pending (close evicted_with_waiter) = [0]
   \<and> promises (close evicted_with_waiter) 0 = None"
proof -
  have e: "evicted_with_waiter = \<lparr> workers = [], available = [], pending = [0], maxPending = \<infinity>,
                promises = Map.empty, created = 1, timers = [], terminated = [],
                listeners = {} \<rparr>"
    by (simp add: evicted_with_waiter_def run_def new_pool_def createWorker_def acquire_def
        worker_error_def)
  show ?thesis by (simp add: e close_def)
qed

subsection \<open>Worker pool: with\<close>

text \<open>
  Claim C4, as amended. If the acquire phase of \<open>with(task)\<close> fails (\<open>acquire\<close> throws,
  or the awaited future is rejected) the caller gets an aggregate error "Failed to
  acquire worker" whose cause is that error, and \<open>release\<close> is not called. If the acquire
  phase succeeds, \<open>release\<close> is called exactly once, on the acquired unit, whether the
  task returns or throws. If that call of \<open>release\<close> fails the caller gets an aggregate
  error "Failed to release worker" whose cause is the error of \<open>release\<close>, also when
  the task had failed; otherwise a failure of the task reaches the caller as an
  aggregate error "Worker task failed" whose cause is the task's error, and the
  result of a task that returned is returned.
\<close>

theorem pool_with_contract:
  "(fst (acquire p) = Inl e \<longrightarrow>
      pool_with task others p
        = Some (Inl (AggregateError [e] ''Failed to acquire worker''), [], snd (acquire p)))
   \<and> (fst (acquire p) = Inr a \<and> awaited a (others (snd (acquire p))) = Some (Rejected e) \<longrightarrow>
      pool_with task others p
        = Some (Inl (AggregateError [e] ''Failed to acquire worker''), [],
                others (snd (acquire p))))
   \<and> (fst (acquire p) = Inr a \<and> awaited a (others (snd (acquire p))) = Some (Fulfilled w) \<longrightarrow>
      pool_with task others p
        = Some (case fst (release w (snd (task w (others (snd (acquire p)))))) of
                  Inl e' \<Rightarrow> Inl (AggregateError [e'] ''Failed to release worker'')
                | Inr u \<Rightarrow>
                    (case fst (task w (others (snd (acquire p)))) of
                       Inl e' \<Rightarrow> Inl (AggregateError [e'] ''Worker task failed'')
                     | Inr result \<Rightarrow> Inr result),
                [w],
                snd (release w (snd (task w (others (snd (acquire p))))))))"
  by (auto simp: pool_with_def Let_def split: prod.splits sum.splits)

theorem pool_with_contract_witness:
  "pool_with (\<lambda>w p. (Inr (42 :: nat), p)) (\<lambda>p. p) new_pool
     = Some (Inl (AggregateError [Error ''No workers in pool''] ''Failed to acquire worker''),
             [], new_pool)
   \<and> map_option fst (pool_with (\<lambda>w p. (Inr (42 :: nat), p)) close one_busy)
     = Some (Inl (AggregateError [Error ''Worker pool closed''] ''Failed to acquire worker''))
   \<and> map_option (fst \<circ> snd) (pool_with (\<lambda>w p. (Inr (42 :: nat), p)) close one_busy) = Some []
   \<and> map_option fst (pool_with (\<lambda>w p. (Inl (Error ''boom'') :: thrown + nat, p)) (\<lambda>p. p) one_idle)
     = Some (Inl (AggregateError [Error ''boom''] ''Worker task failed''))
   \<and> map_option (fst \<circ> snd) (pool_with (\<lambda>w p. (Inl (Error ''boom'') :: thrown + nat, p)) (\<lambda>p. p) one_idle)
     = Some [7]
   \<and> map_option fst (pool_with (\<lambda>w p. (Inr (42 :: nat), p)) (\<lambda>p. p) one_idle) = Some (Inr 42)
   \<and> map_option (fst \<circ> snd) (pool_with (\<lambda>w p. (Inr (42 :: nat), p)) (\<lambda>p. p) one_idle) = Some [7]"
proof -
  have a: "pool_with (\<lambda>w p. (Inr (42 :: nat), p)) (\<lambda>p. p) new_pool
     = Some (Inl (AggregateError [Error ''No workers in pool''] ''Failed to acquire worker''),
             [], new_pool)"
    using pool_with_contract [of new_pool "Error ''No workers in pool''" "\<lambda>w p. (Inr (42 :: nat), p)"
        "\<lambda>p. p" "Ready 0" 0]
    by (simp add: acquire_def new_pool_def)
  have b: "map_option fst (pool_with (\<lambda>w p. (Inr (42 :: nat), p)) close one_busy)
     = Some (Inl (AggregateError [Error ''Worker pool closed''] ''Failed to acquire worker''))
   \<and> map_option (fst \<circ> snd) (pool_with (\<lambda>w p. (Inr (42 :: nat), p)) close one_busy) = Some []"
    using pool_with_contract [of one_busy "Error ''Worker pool closed''" "\<lambda>w p. (Inr (42 :: nat), p)"
        close "Awaiting 0" 0]
    by (simp add: acquire_def one_busy_eq close_def reject_def awaited_def)
  have c: "map_option fst (pool_with (\<lambda>w p. (Inl (Error ''boom'') :: thrown + nat, p)) (\<lambda>p. p) one_idle)
     = Some (Inl (AggregateError [Error ''boom''] ''Worker task failed''))
   \<and> map_option (fst \<circ> snd) (pool_with (\<lambda>w p. (Inl (Error ''boom'') :: thrown + nat, p)) (\<lambda>p. p) one_idle)
     = Some [7]"
    using pool_with_contract [of one_idle "Error ''boom''"
        "\<lambda>w p. (Inl (Error ''boom'') :: thrown + nat, p)" "\<lambda>p. p" "Ready 7" 7]
    by (simp add: acquire_def one_idle_eq awaited_def release_def)
  have d: "map_option fst (pool_with (\<lambda>w p. (Inr (42 :: nat), p)) (\<lambda>p. p) one_idle) = Some (Inr 42)
   \<and> map_option (fst \<circ> snd) (pool_with (\<lambda>w p. (Inr (42 :: nat), p)) (\<lambda>p. p) one_idle) = Some [7]"
    using pool_with_contract [of one_idle "Error ''boom''"
        "\<lambda>w p. (Inr (42 :: nat), p)" "\<lambda>p. p" "Ready 7" 7]
    by (simp add: acquire_def one_idle_eq awaited_def release_def)
  from a b c d show ?thesis by simp
qed

text \<open>
  The claim as stated fails when the task and the release both fail: the unit reports an
  error while the task runs (so it is evicted), the task throws, and \<open>release\<close> then
  rejects the unit. The caller gets the failure of the release phase; the failure of the
  task is not surfaced.
\<close>

theorem task_failure_masked_counterexample:
  "fst (acquire one_idle) = Inr (Ready 7)
   \<and> fst ((\<lambda>w p. (Inl (Error ''boom'') :: thrown + nat, worker_error w p)) 7 (snd (acquire one_idle)))
       = Inl (Error ''boom'')
   \<and> map_option fst
        (pool_with (\<lambda>w p. (Inl (Error ''boom'') :: thrown + nat, worker_error w p)) (\<lambda>p. p) one_idle)
       = Some (Inl (AggregateError [Error ''Worker is not in pool''] ''Failed to release worker''))
   \<and> AggregateError [Error ''Worker is not in pool''] ''Failed to release worker''
       \<noteq> AggregateError [Error ''boom''] ''Worker task failed''"
  by (simp add: pool_with_def acquire_def one_idle_eq awaited_def release_def worker_error_def)

subsection \<open>Unit protocol\<close>

lemma split_job_outer: "split_on CHR ''/'' ''job/outer'' = [''job'', ''outer'']"
  and split_job_inner: "split_on CHR ''/'' ''job/inner'' = [''job'', ''inner'']"
  by simp_all

lemma MAX_neq:
  "0 \<noteq> MAX_SAFE_INTEGER" "Suc 0 \<noteq> MAX_SAFE_INTEGER" "1 \<noteq> MAX_SAFE_INTEGER"
  "2 \<noteq> MAX_SAFE_INTEGER" "Suc (Suc 0) \<noteq> MAX_SAFE_INTEGER"
  by (simp_all add: MAX_SAFE_INTEGER_def)

lemma lookups:
  "getHandler example_handlers ''job/outer'' = Some job_handler"
  "getHandler example_handlers ''job/inner'' = Some job_handler"
  "Option.bind (subType ''job/outer'') (get_task job_handler)
     = Some (\<lambda>config. Deliver (Incoming ''job/inner'' 0) (Progress 1 (Return 2)))"
  "Option.bind (subType ''job/inner'') (get_task job_handler) = Some (\<lambda>config. Return 3)"
  "getHandler example_handlers ''job/slow'' = Some job_handler"
  "Option.bind (subType ''job/slow'') (get_task job_handler)
     = Some (\<lambda>config. Elapse 100 (Return 4))"
  by (simp_all add: getHandler_def subType_def example_handlers_def job_handler_def
      add_task_def makeTypeHandler_def get_task_def)

text \<open>
  Claim C1 says that a request that reaches a unit while it is busy with an earlier
  request gets an immediate terminal "busy" error, and that the earlier request is
  unaffected: the unit remains busy serving it and still posts that request's own
  terminal message. In the code the rejection runs through the \<open>finally\<close> block of
  \<open>onMessage\<close>, which sets \<open>busy\<close> to \<open>false\<close>: the unit stops being busy while the
  earlier task is still running (first evaluation). The earlier request is affected:
  its next \<open>progress\<close> call finds \<open>busy\<close> cleared, throws "Task is not active", and the
  request ends with that error instead of its result (second evaluation). A request
  that is delivered while the very first request of a unit is served is not rejected at
  all, since that request has the id 0 and \<open>if (busy)\<close> takes 0 for idle (third
  evaluation). And a request that the controller posts while a task runs is not
  rejected either: it waits for the task to return and is then served like any other
  (fourth evaluation).
\<close>

theorem busy_rejection_clears_busy:
  "onMessage 1 example_handlers (Incoming ''job/inner'' 0)
      \<lparr> busy = Some 1, next_id = 2, now = 0, posted = [Start] \<rparr>
     = Some \<lparr> busy = None, next_id = 2, now = 0,
              posted = [Start, ErrorMsg ''Worker is busy'' None] \<rparr>
   \<and> onMessage 2 example_handlers (Incoming ''job/outer'' 0) served_once
     = Some \<lparr> busy = None, next_id = 2, now = 0,
              posted = [Start, ErrorMsg ''Worker is busy'' None,
                        ErrorMsg ''Task is not active'' (Some 0)] \<rparr>
   \<and> onMessage 2 example_handlers (Incoming ''job/outer'' 0) fresh_unit
     = Some \<lparr> busy = None, next_id = 2, now = 0,
              posted = [Start, Start, ResultMsg 3 0 [],
                        ErrorMsg ''Task is not active'' (Some 0)] \<rparr>
   \<and> event_loop 1 example_handlers [Incoming ''job/slow'' 0, Incoming ''job/inner'' 0]
        served_once
     = Some \<lparr> busy = None, next_id = 3, now = 100,
              posted = [Start, ResultMsg 4 100 [], Start, ResultMsg 3 0 []] \<rparr>"
proof -
  have a: "onMessage 1 example_handlers (Incoming ''job/inner'' 0)
      \<lparr> busy = Some 1, next_id = 2, now = 0, posted = [Start] \<rparr>
     = Some \<lparr> busy = None, next_id = 2, now = 0,
              posted = [Start, ErrorMsg ''Worker is busy'' None] \<rparr>"
    by (simp add: fail_def dispatch_def)
  have b: "onMessage 2 example_handlers (Incoming ''job/outer'' 0) served_once
     = Some \<lparr> busy = None, next_id = 2, now = 0,
              posted = [Start, ErrorMsg ''Worker is busy'' None,
                        ErrorMsg ''Task is not active'' (Some 0)] \<rparr>"
    by (simp add: numeral_2_eq_2 served_once_def getID_def MAX_neq lookups Let_def
        fail_def dispatch_def)
  have c: "onMessage 2 example_handlers (Incoming ''job/outer'' 0) fresh_unit
     = Some \<lparr> busy = None, next_id = 2, now = 0,
              posted = [Start, Start, ResultMsg 3 0 [],
                        ErrorMsg ''Task is not active'' (Some 0)] \<rparr>"
    by (simp add: numeral_2_eq_2 fresh_unit_def getID_def MAX_neq lookups Let_def
        fail_def dispatch_def)
  have d: "event_loop 1 example_handlers [Incoming ''job/slow'' 0, Incoming ''job/inner'' 0]
        served_once
     = Some \<lparr> busy = None, next_id = 3, now = 100,
              posted = [Start, ResultMsg 4 100 [], Start, ResultMsg 3 0 []] \<rparr>"
    by (simp add: served_once_def getID_def MAX_neq lookups Let_def dispatch_def)
  from a b c d show ?thesis by simp
qed

lemma run_task_plain:
  assumes "\<not> reentrant k" and "busy st = Some i"
  shows "\<exists>ts' st' ms. run_task depth handlers i start ts k st = Some (ending k, ts', st')
           \<and> busy st' = Some i \<and> next_id st' = next_id st
           \<and> posted st' = posted st @ ms \<and> (\<forall>m \<in> set ms. is_progress m)"
  using assms
proof (induction k arbitrary: ts st)
  case (Progress d k)
  let ?st = "dispatch (ProgressMsg d (if start \<noteq> 0 then now st - start else 0)) st"
  have "busy ?st = Some i" using Progress.prems by (simp add: dispatch_def)
  with Progress.IH [of ?st ts] Progress.prems obtain ts' st' ms where
    r: "run_task depth handlers i start ts k ?st = Some (ending k, ts', st')"
      "busy st' = Some i" "next_id st' = next_id ?st" "posted st' = posted ?st @ ms"
      "\<forall>m \<in> set ms. is_progress m"
    by auto
  have "posted st' = posted st @ (ProgressMsg d (if start \<noteq> 0 then now st - start else 0) # ms)"
    using r by (simp add: dispatch_def)
  moreover have "\<forall>m \<in> set (ProgressMsg d (if start \<noteq> 0 then now st - start else 0) # ms). is_progress m"
    using r by simp
  ultimately show ?case
    using r Progress.prems by (auto simp: dispatch_def simp del: set_simps)
next
  case (Elapse n k)
  from Elapse.IH [of "st\<lparr> now := now st + n \<rparr>" ts] Elapse.prems
  show ?case by simp
qed auto

lemma onMessage_busy_None:
  "onMessage depth handlers event st = Some st' \<Longrightarrow> busy st' = None"
  by (cases depth)
    (auto simp: fail_def dispatch_def Let_def
      split: if_splits prod.splits option.splits sum.splits)

text \<open>
  Claim C7. After a unit finishes handling a request, \<open>busy\<close> is cleared, whatever the
  request was and however the task body ended. For an idle unit and a request that
  resolves to a task body (one that delivers no further request to the unit), the call
  returns; the unit has posted \<open>start\<close>, then progress messages only, then exactly one
  terminal message: the \<open>error\<close> with the message of what the body threw (with a
  duration) if it raised, the \<open>result\<close> with what it returned otherwise; and the unit
  is idle again.
\<close>

theorem onMessage_returns_to_idle:
  "(onMessage depth handlers event st = Some st' \<longrightarrow> busy st' = None)
   \<and> (busy st = None
      \<and> getHandler handlers (msg_type event) = Some handler
      \<and> Option.bind (subType (msg_type event)) (get_task handler) = Some task
      \<and> \<not> reentrant (task (payload event)) \<longrightarrow>
      (\<exists>st'' ms final. onMessage (Suc depth) handlers event st = Some st''
         \<and> busy st'' = None
         \<and> posted st'' = posted st @ Start # ms @ [final]
         \<and> filter is_terminal (Start # ms @ [final]) = [final]
         \<and> (case ending (task (payload event)) of
               Inl e \<Rightarrow> \<exists>d. final = ErrorMsg (message_of e) (Some d)
             | Inr v \<Rightarrow> \<exists>d ts. final = ResultMsg v d ts)))"
proof (intro conjI impI)
  assume "onMessage depth handlers event st = Some st'"
  then show "busy st' = None" by (rule onMessage_busy_None)
next
  assume a: "busy st = None
      \<and> getHandler handlers (msg_type event) = Some handler
      \<and> Option.bind (subType (msg_type event)) (get_task handler) = Some task
      \<and> \<not> reentrant (task (payload event))"
  obtain i st1 where id: "getID st = (i, st1)" by (cases "getID st")
  define st3 where "st3 = dispatch Start (st1\<lparr> busy := Some i \<rparr>)"
  have p1: "posted st1 = posted st" using id by (auto simp: getID_def Let_def)
  have st3: "busy st3 = Some i" "posted st3 = posted st @ [Start]"
    by (simp_all add: st3_def dispatch_def p1)
  from run_task_plain [of "task (payload event)" st3 i depth handlers "now st3" "[]"] a st3
  obtain ts st4 ms where
    r: "run_task depth handlers i (now st3) [] (task (payload event)) st3
          = Some (ending (task (payload event)), ts, st4)"
      and p4: "posted st4 = posted st3 @ ms" and ms: "\<forall>m \<in> set ms. is_progress m"
    by blast
  have nt: "filter is_terminal ms = []"
  proof -
    have "\<not> is_terminal m" if "is_progress m" for m :: "'a outgoing"
      using that by (cases m) simp_all
    with ms show ?thesis by (auto simp: filter_empty_conv)
  qed
  show "\<exists>st'' ms final. onMessage (Suc depth) handlers event st = Some st''
         \<and> busy st'' = None
         \<and> posted st'' = posted st @ Start # ms @ [final]
         \<and> filter is_terminal (Start # ms @ [final]) = [final]
         \<and> (case ending (task (payload event)) of
               Inl e \<Rightarrow> \<exists>d. final = ErrorMsg (message_of e) (Some d)
             | Inr v \<Rightarrow> \<exists>d ts. final = ResultMsg v d ts)"
  proof (cases "ending (task (payload event))")
    case (Inl e)
    let ?final = "ErrorMsg (message_of e) (Some (now st4 - now st3)) :: 'a outgoing"
    have "onMessage (Suc depth) handlers event st = Some (fail (message_of e) (Some (now st4 - now st3)) st4)"
      using a id r Inl by (simp add: Let_def st3_def)
    moreover have "busy (fail (message_of e) (Some (now st4 - now st3)) st4) = None"
      by (simp add: fail_def)
    moreover have "posted (fail (message_of e) (Some (now st4 - now st3)) st4)
        = posted st @ Start # ms @ [?final]"
      by (simp add: fail_def dispatch_def p4 st3)
    moreover have "filter is_terminal (Start # ms @ [?final]) = [?final]"
      by (simp add: nt)
    ultimately show ?thesis using Inl by auto
  next
    case (Inr v)
    let ?final = "ResultMsg v (now st4 - now st3) ts :: 'a outgoing"
    let ?st = "(dispatch ?final st4)\<lparr> busy := None \<rparr>"
    have "onMessage (Suc depth) handlers event st = Some ?st"
      using a id r Inr by (simp add: Let_def st3_def)
    moreover have "busy ?st = None" by simp
    moreover have "posted ?st = posted st @ Start # ms @ [?final]"
      by (simp add: dispatch_def p4 st3)
    moreover have "filter is_terminal (Start # ms @ [?final]) = [?final]"
      by (simp add: nt)
    ultimately show ?thesis using Inr by auto
  qed
qed

theorem onMessage_returns_to_idle_witness:
  "\<exists>st' ms d. onMessage 1 example_handlers (Incoming ''test/crash'' 0) served_once = Some st'
      \<and> busy st' = None
      \<and> posted st' = Start # ms @ [ErrorMsg ''boom'' (Some d)]
      \<and> filter is_terminal (Start # ms @ [ErrorMsg ''boom'' (Some d)])
          = [ErrorMsg ''boom'' (Some d)]"
proof -
  have h: "getHandler example_handlers ''test/crash'' = Some crash_handler"
    by (simp add: getHandler_def example_handlers_def)
  have t: "Option.bind (subType ''test/crash'') (get_task crash_handler)
      = Some (\<lambda>config. Elapse 5 (Progress 9 (Throw (Error ''boom''))))"
    by (simp add: subType_def crash_handler_def add_task_def makeTypeHandler_def get_task_def)
  from onMessage_returns_to_idle [of 0 example_handlers "Incoming ''test/crash'' 0" served_once
      served_once crash_handler "\<lambda>config. Elapse 5 (Progress 9 (Throw (Error ''boom'')))"]
  obtain st'' ms final where r:
    "onMessage (Suc 0) example_handlers (Incoming ''test/crash'' 0) served_once = Some st''"
    "posted st'' = posted served_once @ Start # ms @ [final]"
    "filter is_terminal (Start # ms @ [final]) = [final]"
    "\<exists>d. final = ErrorMsg ''boom'' (Some d)"
    using h t by (auto simp: served_once_def)
  from onMessage_returns_to_idle [of "Suc 0" example_handlers "Incoming ''test/crash'' 0"
      served_once st'' crash_handler "\<lambda>config. Return 0"] r(1)
  have "busy st'' = None" by blast
  with r show ?thesis by (auto simp: served_once_def)
qed

subsection \<open>Worker pool: eviction of a faulty unit\<close>

lemma well_formed_new_pool: "well_formed new_pool"
  by (simp add: well_formed_def new_pool_def)

lemma well_formed_step: "well_formed p \<Longrightarrow> well_formed (step ev p)"
proof (cases ev)
  case (Create b r)
  assume "well_formed p"
  then show ?thesis using Create
    by (auto simp: well_formed_def createWorker_def split: sum.splits)
next
  case Acquire
  assume "well_formed p"
  then show ?thesis using Acquire
    by (auto simp: well_formed_def acquire_def less_Suc_eq split: list.splits dest: set_mp)
next
  case (Release w)
  assume "well_formed p"
  then show ?thesis using Release
    by (auto simp: well_formed_def release_def split: list.splits)
next
  case (ErrorEvent w)
  assume "well_formed p"
  then show ?thesis using ErrorEvent
    by (auto simp: well_formed_def worker_error_def)
next
  case Timeout
  assume "well_formed p"
  then show ?thesis using Timeout
    by (auto simp: well_formed_def run_timer_def resolve_def split: list.splits option.splits)
next
  case Close
  assume "well_formed p"
  then show ?thesis using Close
    by (auto simp: well_formed_def close_def fold_reject_fields promises_fold_reject)
next
  case (SetMaxPending v)
  assume "well_formed p"
  then show ?thesis using SetMaxPending
    by (auto simp: well_formed_def set_maxPending_def)
qed

lemma well_formed_run: "well_formed p \<Longrightarrow> well_formed (run evs p)"
  unfolding run_def by (induction evs arbitrary: p) (simp_all add: well_formed_step)

lemma evicted_worker_error:
  assumes "well_formed p"
  shows "evicted w (created p) (worker_error w p)"
proof (cases "w \<in> listeners p")
  case True
  with assms show ?thesis
    by (auto simp: evicted_def well_formed_def worker_error_def)
next
  case False
  with assms have "w \<notin> set (workers p)" "w \<notin> set (available p)"
    by (auto simp: well_formed_def)
  with assms False show ?thesis
    by (auto simp: evicted_def well_formed_def worker_error_def)
qed

lemma evicted_step:
  assumes "evicted w d0 p" and "\<forall>b. ev \<noteq> Create b (Inr w)"
  shows "evicted w d0 (step ev p)"
proof (cases ev)
  case (Create b r)
  with assms show ?thesis
    by (auto simp: evicted_def createWorker_def split: sum.splits)
next
  case Acquire
  with assms show ?thesis
    by (auto simp: evicted_def acquire_def split: list.splits)
next
  case (Release w')
  with assms show ?thesis
    by (auto simp: evicted_def release_def split: list.splits)
next
  case (ErrorEvent w')
  with assms show ?thesis
    by (auto simp: evicted_def worker_error_def)
next
  case Timeout
  with assms show ?thesis
    by (auto simp: evicted_def run_timer_def resolve_def split: list.splits option.splits)
next
  case Close
  with assms show ?thesis
    by (auto simp: evicted_def close_def fold_reject_fields promises_fold_reject)
next
  case (SetMaxPending v)
  with assms show ?thesis
    by (auto simp: evicted_def set_maxPending_def)
qed

lemma evicted_run:
  "evicted w d0 p \<Longrightarrow> \<forall>b. Create b (Inr w) \<notin> set evs \<Longrightarrow> evicted w d0 (run evs p)"
  unfolding run_def
proof (induction evs arbitrary: p)
  case Nil
  then show ?case by simp
next
  case (Cons ev evs)
  from Cons.prems have "\<forall>b. ev \<noteq> Create b (Inr w)" by auto
  with Cons.prems have "evicted w d0 (step ev p)" by (intro evicted_step) auto
  moreover from Cons.prems have "\<forall>b. Create b (Inr w) \<notin> set evs" by auto
  ultimately show ?case using Cons.IH by simp
qed

text \<open>
  Claim C9. Once a unit has reported a fault (its \<open>error\<close> event has fired), whatever
  happened to the pool before and whatever happens after (as long as the factory does
  not hand the same worker object to the pool again), the unit is in neither the unit
  list nor the idle list, and no call of \<open>acquire()\<close> made after the fault returns it:
  such a call fails, or returns another unit, or returns a future that is never
  fulfilled with the evicted unit.
\<close>

theorem evicted_unit_never_returns:
  assumes later: "\<forall>b. Create b (Inr w) \<notin> set evs"
    and after: "\<forall>b. Create b (Inr w) \<notin> set evs'"
  shows "w \<notin> set (workers (run evs (worker_error w (run before new_pool))))
    \<and> w \<notin> set (available (run evs (worker_error w (run before new_pool))))
    \<and> (case fst (acquire (run evs (worker_error w (run before new_pool)))) of
          Inl e \<Rightarrow> True
        | Inr (Ready w') \<Rightarrow> w' \<noteq> w
        | Inr (Awaiting d) \<Rightarrow>
            promises (run evs' (snd (acquire (run evs (worker_error w (run before new_pool))))))
              d \<noteq> Some (Fulfilled w))"
proof -
  define p where "p = run before new_pool"
  define q where "q = run evs (worker_error w p)"
  have "well_formed p"
    unfolding p_def by (intro well_formed_run well_formed_new_pool)
  then have "evicted w (created p) (worker_error w p)" by (rule evicted_worker_error)
  then have q: "evicted w (created p) q"
    unfolding q_def using later by (rule evicted_run)
  then have lists: "w \<notin> set (workers q)" "w \<notin> set (available q)"
    by (simp_all add: evicted_def)
  have acq: "evicted w (created p) (snd (acquire q))"
    using evicted_step [OF q, of Acquire] by simp
  have c: "case fst (acquire q) of
          Inl e \<Rightarrow> True
        | Inr (Ready w') \<Rightarrow> w' \<noteq> w
        | Inr (Awaiting d) \<Rightarrow> promises (run evs' (snd (acquire q))) d \<noteq> Some (Fulfilled w)"
  proof (cases "fst (acquire q)")
    case (Inl e)
    then show ?thesis by simp
  next
    case (Inr a)
    show ?thesis
    proof (cases a)
      case (Ready w')
      with Inr have "w' \<in> set (available q)"
        by (auto simp: acquire_def split: if_splits list.splits)
      with lists Ready Inr show ?thesis by auto
    next
      case (Awaiting d)
      with Inr have "d = created q"
        by (auto simp: acquire_def split: if_splits list.splits)
      moreover have "created p \<le> created q" using q by (simp add: evicted_def)
      moreover have "evicted w (created p) (run evs' (snd (acquire q)))"
        using acq after by (rule evicted_run)
      ultimately have "promises (run evs' (snd (acquire q))) d \<noteq> Some (Fulfilled w)"
        by (simp add: evicted_def)
      with Awaiting Inr show ?thesis by simp
    qed
  qed
  show ?thesis using lists c unfolding q_def p_def by blast
qed

theorem evicted_unit_never_returns_witness:
  "7 \<notin> set (workers (run [Acquire] (worker_error 7 (run [Create False (Inr 7), Create False (Inr 8)] new_pool))))
   \<and> 7 \<notin> set (available (run [Acquire] (worker_error 7 (run [Create False (Inr 7), Create False (Inr 8)] new_pool))))
   \<and> fst (acquire (run [Acquire] (worker_error 7 (run [Create False (Inr 7), Create False (Inr 8)] new_pool))))
       = Inr (Awaiting 0)
   \<and> promises (run [Release 8, Timeout]
        (snd (acquire (run [Acquire] (worker_error 7 (run [Create False (Inr 7), Create False (Inr 8)] new_pool))))))
        0 \<noteq> Some (Fulfilled 7)
   \<and> promises (run [Release 8, Timeout]
        (snd (acquire (run [Acquire] (worker_error 7 (run [Create False (Inr 7), Create False (Inr 8)] new_pool))))))
        0 = Some (Fulfilled 8)"
proof -
  have q: "run [Acquire] (worker_error 7 (run [Create False (Inr 7), Create False (Inr 8)] new_pool))
    = \<lparr> workers = [8], available = [], pending = [], maxPending = \<infinity>,
                promises = Map.empty, created = 0, timers = [], terminated = [],
                listeners = {8} \<rparr>"
    by (auto simp: run_def new_pool_def createWorker_def worker_error_def acquire_def)
  have a: "acquire \<lparr> workers = [8], available = [], pending = [], maxPending = \<infinity>,
                promises = Map.empty, created = 0, timers = [], terminated = [],
                listeners = {8} \<rparr>
     = (Inr (Awaiting 0), \<lparr> workers = [8], available = [], pending = [0], maxPending = \<infinity>,
                promises = Map.empty, created = Suc 0, timers = [], terminated = [],
                listeners = {8} \<rparr>)"
    by (simp add: acquire_def)
  have r: "promises (run [Release 8, Timeout] \<lparr> workers = [8], available = [], pending = [0],
                maxPending = \<infinity>, promises = Map.empty, created = Suc 0, timers = [],
                terminated = [], listeners = {8} \<rparr>) 0 = Some (Fulfilled 8)"
    by (simp add: run_def release_def run_timer_def resolve_def)
  from evicted_unit_never_returns [of 7 "[Acquire]" "[Release 8, Timeout]"
      "[Create False (Inr 7), Create False (Inr 8)]"]
  show ?thesis by (simp add: q a r)
qed

text \<open>
  The claim is about calls of \<open>acquire()\<close> made after the fault. A caller that was
  already waiting can still be handed the unit: it is released to that caller (the timer
  callback is queued), then reports its fault, then the callback runs.
\<close>

lemma earlier_waiter_gets_evicted_unit:
  "7 \<notin> set (workers (run [Create False (Inr 7), Acquire, Acquire, Release 7, ErrorEvent 7, Timeout]
        new_pool))
   \<and> promises (run [Create False (Inr 7), Acquire, Acquire, Release 7, ErrorEvent 7, Timeout]
        new_pool) 0 = Some (Fulfilled 7)"
  by (simp add: run_def new_pool_def createWorker_def acquire_def release_def worker_error_def
      run_timer_def resolve_def)

subsection \<open>The membership predicate of a category handler\<close>

text \<open>
  Claim C10. For the category handler returned by \<open>makeTypeHandler(t)\<close>, the membership
  predicate \<open>is(s)\<close> returns false for every input string \<open>s\<close>: the argument is
  compared with itself followed by a slash, which is one character longer than the
  argument, so no string (not even one of the form \<open>t/subtype\<close>) is recognised.
\<close>

theorem is_type_never_recognises:
  "is_type (makeTypeHandler t) s = False"
proof -
  have "\<not> prefix (s @ ''/'') s"
  proof
    assume "prefix (s @ ''/'') s"
    then have "length (s @ ''/'') \<le> length s" by (rule prefix_length_le)
    then show False by simp
  qed
  then show ?thesis by (simp add: is_type_def startsWith_def)
qed

end
